theory Spec2Isabelle
  imports Complex_Main "HOL-Library.Char_ord" "HOL-Library.List_Lexorder" "HOL-Library.Multiset"
begin

section \<open>Data model of \<^verbatim>\<open>BACKEND/lambda_function.py\<close>\<close>

text \<open>
  A log record is a DynamoDB item, in Python a dict from attribute names to values.
  Every attribute the handlers read or write is a field here; \<open>None\<close> is an absent
  key, so that \<^verbatim>\<open>item.get('K')\<close> is the field itself and \<^verbatim>\<open>'K' in item\<close> is
  \<open>K item \<noteq> None\<close>. Attribute values are strings, as the writers of this file store
  them. Strings are compared as Python compares them, lexicographically by character
  code (the orders of \<open>Char_ord\<close> and \<open>List_Lexorder\<close>).
\<close>

record item =
  SessionId :: "string option"
  InteractionId :: "string option"
  Timestamp :: "string option"
  EventType :: "string option"
  Timestamp_EventType :: "string option"
  Content :: "string option"
  UserQuestion :: "string option"
  OriginalAIResponse :: "string option"
  AdminId :: "string option"
  CorrectionTimestamp :: "string option"

text \<open>Python truthiness of an optional string: \<^verbatim>\<open>None\<close> and \<^verbatim>\<open>''\<close> are false.\<close>

definition truthy :: "string option \<Rightarrow> bool" where
  "truthy v = (case v of None \<Rightarrow> False | Some s \<Rightarrow> s \<noteq> [])"

text \<open>
  A pagination key of the backend (\<^verbatim>\<open>LastEvaluatedKey\<close>, \<^verbatim>\<open>ExclusiveStartKey\<close>) is a
  dict of key attributes; an absent key and the empty dict are both false.
\<close>

type_synonym key = "(string \<times> string) list"

definition key_truthy :: "key option \<Rightarrow> bool" where
  "key_truthy k = (case k of None \<Rightarrow> False | Some d \<Rightarrow> d \<noteq> [])"

text \<open>
  The exceptions the handlers can meet, each with what \<^verbatim>\<open>str(e)\<close> prints: the backend's
  \<^verbatim>\<open>ClientError\<close>; the \<^verbatim>\<open>ZeroDivisionError\<close> and \<^verbatim>\<open>KeyError\<close> that the history handler's
  own code can raise; the \<^verbatim>\<open>ValueError\<close> of \<^verbatim>\<open>int(...)\<close>; the \<^verbatim>\<open>JSONDecodeError\<close> (a
  subclass of \<^verbatim>\<open>ValueError\<close>) and the \<^verbatim>\<open>TypeError\<close> of \<^verbatim>\<open>json.loads\<close>; the
  \<^verbatim>\<open>AttributeError\<close> of a method call on a value that has no such method; and any
  other exception class.
\<close>

datatype py_error =
    ClientError string
  | ZeroDivisionError
  | KeyError string
  | ValueError string
  | JSONDecodeError string
  | TypeError string
  | AttributeError string
  | OtherException string

fun str_of :: "py_error \<Rightarrow> string" where
  "str_of (ClientError m) = m"
| "str_of ZeroDivisionError = ''integer division or modulo by zero''"
| "str_of (KeyError k) = [CHR 0x27] @ k @ [CHR 0x27]"
| "str_of (ValueError m) = m"
| "str_of (JSONDecodeError m) = m"
| "str_of (TypeError m) = m"
| "str_of (AttributeError m) = m"
| "str_of (OtherException m) = m"

text \<open>
  The keyword arguments of \<^verbatim>\<open>table.query\<close> that the code sets, and the part of its
  response that the code reads. The table itself is the external record store: it is a
  parameter of every function that reads it.
\<close>

record query_kwargs =
  IndexName :: string
  KeyEventType :: string
  FilterSessionId :: "string option"
  ScanIndexForward :: bool
  Limit :: "nat option"
  ExclusiveStartKey :: "key option"

record query_response =
  Items :: "item list option"
  LastEvaluatedKey :: "key option"

type_synonym table = "query_kwargs \<Rightarrow> py_error + query_response"

definition get_Items :: "query_response \<Rightarrow> item list" where
  "get_Items response = (case Items response of None \<Rightarrow> [] | Some xs \<Rightarrow> xs)"

section \<open>Reading every record of one event type\<close>

definition history_kwargs :: "string \<Rightarrow> string option \<Rightarrow> key option \<Rightarrow> query_kwargs" where
  "history_kwargs event_type session_id_filter last_evaluated_key =
     \<lparr> IndexName = ''EventType_Timestamp_Index'',
       KeyEventType = event_type,
       FilterSessionId = (if truthy session_id_filter then session_id_filter else None),
       ScanIndexForward = False,
       Limit = None,
       ExclusiveStartKey = (if key_truthy last_evaluated_key then last_evaluated_key else None) \<rparr>"

text \<open>
  The \<^verbatim>\<open>while True\<close> loop of \<^verbatim>\<open>fetch_all_items_for_event_type\<close>. It runs for as long as
  the backend hands out continuation keys, so it is a partial function: \<open>None\<close> is a
  loop that never ends. A \<^verbatim>\<open>ClientError\<close> of the backend leaves the loop as \<open>Inl\<close>.
\<close>

partial_function (option) fetch_loop ::
  "table \<Rightarrow> string \<Rightarrow> string option \<Rightarrow> item list \<Rightarrow> key option \<Rightarrow> (py_error + item list) option"
where
  "fetch_loop tbl event_type session_id_filter all_type_items last_evaluated_key =
     (case tbl (history_kwargs event_type session_id_filter last_evaluated_key) of
        Inl e \<Rightarrow> Some (Inl e)
      | Inr response \<Rightarrow>
          (if \<not> key_truthy (LastEvaluatedKey response)
           then Some (Inr (all_type_items @ get_Items response))
           else fetch_loop tbl event_type session_id_filter
                  (all_type_items @ get_Items response) (LastEvaluatedKey response)))"

definition fetch_all_items_for_event_type ::
  "table \<Rightarrow> string \<Rightarrow> string option \<Rightarrow> (py_error + item list) option" where
  "fetch_all_items_for_event_type tbl event_type session_id_filter =
     fetch_loop tbl event_type session_id_filter [] None"

section \<open>Grouping, ordering and paginating the history\<close>

text \<open>
  \<^verbatim>\<open>grouped_interactions\<close> is a Python dict, which keeps its keys in the order of their
  first insertion: an association list with distinct keys, in that order.
\<close>

type_synonym groups = "(string \<times> item list) list"

fun dict_append :: "groups \<Rightarrow> string \<Rightarrow> item \<Rightarrow> groups" where
  "dict_append [] k v = [(k, [v])]"
| "dict_append ((k', vs) # d) k v =
     (if k' = k then (k', vs @ [v]) # d else (k', vs) # dict_append d k v)"

text \<open>Step 2: the loop over \<^verbatim>\<open>all_items\<close> that fills the dict.\<close>

fun group_items :: "groups \<Rightarrow> item list \<Rightarrow> groups" where
  "group_items d [] = d"
| "group_items d (it # its) =
     (if truthy (InteractionId it)
      then group_items (dict_append d (the (InteractionId it)) it) its
      else group_items d its)"

text \<open>
  \<^verbatim>\<open>x['Timestamp']\<close>: the code reads it only from items that passed the test
  \<^verbatim>\<open>'Timestamp' in item\<close> (lemma \<open>grouped_have_Timestamp\<close> below).
\<close>

definition ts :: "item \<Rightarrow> string" where
  "ts x = the (Timestamp x)"

text \<open>Step 3: \<^verbatim>\<open>sorted\<close> is stable and ascending, as \<open>sort_key\<close> is.\<close>

definition sort_group :: "item list \<Rightarrow> item list" where
  "sort_group items = sort_key ts (filter (\<lambda>item. Timestamp item \<noteq> None) items)"

definition sort_groups :: "groups \<Rightarrow> groups" where
  "sort_groups d = map (\<lambda>(interaction_id, items). (interaction_id, sort_group items)) d"

text \<open>
  Step 4: \<^verbatim>\<open>max\<close> of a sequence, which the code takes only of a non-empty group
  (\<^verbatim>\<open>if items:\<close>); the first equation is never used.
\<close>

fun py_max :: "string list \<Rightarrow> string" where
  "py_max [] = []"
| "py_max (x # xs) = fold max xs x"

definition interaction_id_sort_keys :: "groups \<Rightarrow> (string \<times> string) list" where
  "interaction_id_sort_keys d =
     map (\<lambda>(interaction_id, items). (py_max (map ts items), interaction_id))
       (filter (\<lambda>(interaction_id, items). items \<noteq> []) d)"

text \<open>
  Step 5: \<^verbatim>\<open>list.sort(key=..., reverse=True)\<close> reverses the list, sorts it stably and
  reverses it again, so that equal keys keep their order.
\<close>

definition sort_reverse :: "(string \<times> string) list \<Rightarrow> (string \<times> string) list" where
  "sort_reverse xs = rev (sort_key fst (rev xs))"

definition ordered_interaction_ids :: "groups \<Rightarrow> string list" where
  "ordered_interaction_ids d = map snd (sort_reverse (interaction_id_sort_keys d))"

text \<open>A Python slice \<^verbatim>\<open>xs[start:stop]\<close> with integer bounds of either sign.\<close>

definition py_slice :: "'a list \<Rightarrow> int \<Rightarrow> int \<Rightarrow> 'a list" where
  "py_slice xs start stop =
     (let n = int (length xs);
          s = (if start < 0 then max 0 (start + n) else min start n);
          e = (if stop < 0 then max 0 (stop + n) else min stop n)
      in take (nat (e - s)) (drop (nat s) xs))"

text \<open>Step 6: the page of interaction ids.\<close>

definition paginated_interaction_ids :: "string list \<Rightarrow> int \<Rightarrow> int \<Rightarrow> string list" where
  "paginated_interaction_ids ordered_ids page limit =
     (let start_index = (page - 1) * limit; end_index = start_index + limit
      in py_slice ordered_ids start_index end_index)"

text \<open>Step 7: \<^verbatim>\<open>grouped_interactions[interaction_id]\<close> raises \<^verbatim>\<open>KeyError\<close> on a missing key.\<close>

fun flatten :: "groups \<Rightarrow> string list \<Rightarrow> py_error + item list" where
  "flatten d [] = Inr []"
| "flatten d (interaction_id # ids) =
     (case map_of d interaction_id of
        None \<Rightarrow> Inl (KeyError interaction_id)
      | Some items \<Rightarrow>
          (case flatten d ids of Inl e \<Rightarrow> Inl e | Inr rest \<Rightarrow> Inr (items @ rest)))"

record summary =
  totalInteractionGroups :: nat
  totalIndividualLogEntries :: nat
  totalQuestions :: nat
  totalAIResponses :: nat
  totalAdminCorrections :: nat
  uniqueSessionCount :: nat

record meta =
  current_page :: int
  total_pages :: int
  total_interaction_groups :: nat
  limit_per_page :: int

datatype body =
    History summary "item list" meta
  | Message string

type_synonym response = "nat \<times> body"

definition count_event_type :: "string \<Rightarrow> item list \<Rightarrow> nat" where
  "count_event_type t all_items = length (filter (\<lambda>item. EventType item = Some t) all_items)"

definition unique_session_count :: "item list \<Rightarrow> nat" where
  "unique_session_count all_items =
     length (remdups (map SessionId (filter (\<lambda>item. truthy (SessionId item)) all_items)))"

text \<open>Steps 2 and 3 together: the dict of groups, each sorted.\<close>

definition grouped_interactions :: "item list \<Rightarrow> groups" where
  "grouped_interactions all_items = sort_groups (group_items [] all_items)"

text \<open>Steps 2 to 5 together: the interaction ids in the order of the response.\<close>

definition ordered_ids_of :: "item list \<Rightarrow> string list" where
  "ordered_ids_of all_items = ordered_interaction_ids (grouped_interactions all_items)"

text \<open>
  The \<^verbatim>\<open>try\<close> body of \<^verbatim>\<open>handle_admin_history_request\<close> after the three reads, on the
  concatenated \<^verbatim>\<open>all_items\<close>. \<open>page\<close> and \<open>limit\<close> are the query parameters after
  \<^verbatim>\<open>int(...)\<close>. The floor division by \<open>limit\<close> raises \<^verbatim>\<open>ZeroDivisionError\<close> at 0,
  before the slice is taken.
\<close>

definition history_page :: "item list \<Rightarrow> int \<Rightarrow> int \<Rightarrow> py_error + body" where
  "history_page all_items page limit =
     (let ordered_ids = ordered_interaction_ids (grouped_interactions all_items);
          total_groups = length ordered_ids
      in if limit = 0 then Inl ZeroDivisionError
         else
           (let pages = (int total_groups + limit - 1) div limit;
                page_ids = paginated_interaction_ids ordered_ids page limit
            in case flatten (grouped_interactions all_items) page_ids of
                 Inl e \<Rightarrow> Inl e
               | Inr paginated_history_items \<Rightarrow>
                   Inr (History
                      \<lparr> totalInteractionGroups = total_groups,
                        totalIndividualLogEntries = length all_items,
                        totalQuestions = count_event_type ''QUESTION'' all_items,
                        totalAIResponses = count_event_type ''AI_RESPONSE'' all_items,
                        totalAdminCorrections = count_event_type ''ADMIN_CORRECTION'' all_items,
                        uniqueSessionCount = unique_session_count all_items \<rparr>
                      paginated_history_items
                      \<lparr> current_page = page,
                        total_pages = pages,
                        total_interaction_groups = total_groups,
                        limit_per_page = limit \<rparr>)))"

text \<open>
  Step 1: the three reads, in the code's order, each through the paging loop. The
  first exception ends the reads.
\<close>

definition fetch_all_items :: "table \<Rightarrow> string option \<Rightarrow> (py_error + item list) option" where
  "fetch_all_items tbl session_id_filter =
     (case fetch_all_items_for_event_type tbl ''AI_RESPONSE'' session_id_filter of
        None \<Rightarrow> None
      | Some (Inl e) \<Rightarrow> Some (Inl e)
      | Some (Inr a) \<Rightarrow>
     (case fetch_all_items_for_event_type tbl ''QUESTION'' session_id_filter of
        None \<Rightarrow> None
      | Some (Inl e) \<Rightarrow> Some (Inl e)
      | Some (Inr q) \<Rightarrow>
     (case fetch_all_items_for_event_type tbl ''ADMIN_CORRECTION'' session_id_filter of
        None \<Rightarrow> None
      | Some (Inl e) \<Rightarrow> Some (Inl e)
      | Some (Inr c) \<Rightarrow> Some (Inr (a @ q @ c)))))"

text \<open>
  The three \<^verbatim>\<open>except\<close> clauses of \<^verbatim>\<open>handle_admin_history_request\<close>, in their order: a
  \<^verbatim>\<open>ValueError\<close> (also of its subclass \<^verbatim>\<open>JSONDecodeError\<close>) becomes the 400 response, a
  \<^verbatim>\<open>ClientError\<close> and any other exception each become a 500 response.
\<close>

definition history_except :: "py_error \<Rightarrow> response" where
  "history_except e =
     (case e of
        ValueError m \<Rightarrow>
          (400, Message (''Invalid '' @ [CHR 0x27] @ ''limit'' @ [CHR 0x27] @ '' or '' @
             [CHR 0x27] @ ''page'' @ [CHR 0x27] @ '' query parameter. Must be an integer.''))
      | JSONDecodeError m \<Rightarrow>
          (400, Message (''Invalid '' @ [CHR 0x27] @ ''limit'' @ [CHR 0x27] @ '' or '' @
             [CHR 0x27] @ ''page'' @ [CHR 0x27] @ '' query parameter. Must be an integer.''))
      | ClientError m \<Rightarrow> (500, Message ''Failed to retrieve history due to database error.'')
      | _ \<Rightarrow> (500, Message (''An unexpected error occurred: '' @ str_of e)))"

text \<open>
  The handler from the point where \<open>page\<close> and \<open>limit\<close> are integers, with its
  \<^verbatim>\<open>except\<close> clauses. The result is \<open>None\<close> when a read never ends.
\<close>

definition handle_admin_history_request ::
  "table \<Rightarrow> string option \<Rightarrow> int \<Rightarrow> int \<Rightarrow> response option" where
  "handle_admin_history_request tbl session_id_filter page limit =
     (case fetch_all_items tbl session_id_filter of
        None \<Rightarrow> None
      | Some fetched \<Rightarrow>
          Some (case (case fetched of
                        Inl e \<Rightarrow> Inl e
                      | Inr all_items \<Rightarrow> history_page all_items page limit) of
                  Inl e \<Rightarrow> history_except e
                | Inr b \<Rightarrow> (200, b)))"

text \<open>
  The whole handler on the query string parameters of the event, a dict of strings
  or \<^verbatim>\<open>None\<close>. Python's \<^verbatim>\<open>int\<close> on a string is the parameter \<open>py_int\<close>: it returns the
  integer or raises \<^verbatim>\<open>ValueError\<close>. \<open>page\<close> is read before \<open>limit\<close>; a missing parameter
  is 1 and 20.
\<close>

definition handle_admin_history_event ::
  "(string \<Rightarrow> py_error + int) \<Rightarrow> table \<Rightarrow> (string \<times> string) list option \<Rightarrow> response option" where
  "handle_admin_history_event py_int tbl query_string_parameters =
     (let query_params = (case query_string_parameters of None \<Rightarrow> [] | Some d \<Rightarrow> d);
          session_id_filter = map_of query_params ''sessionId''
      in case (case map_of query_params ''page'' of None \<Rightarrow> Inr 1 | Some s \<Rightarrow> py_int s) of
           Inl e \<Rightarrow> Some (history_except e)
         | Inr page \<Rightarrow>
             (case (case map_of query_params ''limit'' of None \<Rightarrow> Inr 20 | Some s \<Rightarrow> py_int s) of
                Inl e \<Rightarrow> Some (history_except e)
              | Inr limit \<Rightarrow> handle_admin_history_request tbl session_id_filter page limit))"

section \<open>Writing records\<close>

text \<open>
  \<^verbatim>\<open>table.put_item\<close> is a parameter \<open>put_item\<close> that takes the state of the store and
  the item and returns the new state or the exception. The clock
  (\<^verbatim>\<open>get_utc_timestamp_str()\<close>) is the parameter \<open>timestamp_str\<close>. Both writers log a
  \<^verbatim>\<open>ClientError\<close> and raise it again.
\<close>

definition log_user_question ::
  "('s \<Rightarrow> item \<Rightarrow> py_error + 's) \<Rightarrow> string \<Rightarrow> 's \<Rightarrow> string \<Rightarrow> string \<Rightarrow> string \<Rightarrow> py_error + 's" where
  "log_user_question put_item timestamp_str st session_id user_question interaction_id =
     put_item st
       \<lparr> SessionId = Some session_id,
         InteractionId = Some interaction_id,
         Timestamp = Some timestamp_str,
         EventType = Some ''QUESTION'',
         Timestamp_EventType = Some (timestamp_str @ ''#QUESTION''),
         Content = Some user_question,
         UserQuestion = None,
         OriginalAIResponse = None,
         AdminId = None,
         CorrectionTimestamp = None \<rparr>"

definition log_ai_response ::
  "('s \<Rightarrow> item \<Rightarrow> py_error + 's) \<Rightarrow> string \<Rightarrow> 's \<Rightarrow> string \<Rightarrow> string \<Rightarrow> string \<Rightarrow> string
     \<Rightarrow> py_error + 's" where
  "log_ai_response put_item timestamp_str st session_id ai_response user_question interaction_id =
     put_item st
       \<lparr> SessionId = Some session_id,
         InteractionId = Some interaction_id,
         Timestamp = Some timestamp_str,
         EventType = Some ''AI_RESPONSE'',
         Timestamp_EventType = Some (timestamp_str @ ''#AI_RESPONSE''),
         Content = Some ai_response,
         UserQuestion = Some user_question,
         OriginalAIResponse = None,
         AdminId = None,
         CorrectionTimestamp = None \<rparr>"

text \<open>
  The values that \<^verbatim>\<open>json.loads\<close> returns: \<^verbatim>\<open>None\<close>, a bool, an int, a float (with
  the three special values that the parser also accepts), a string, a list, or a dict
  (an association list; a lookup takes the first entry of a key).
\<close>

datatype py_float = Finite real | Infinity | MinusInfinity | NaN










section \<open>The correction matcher\<close>

text \<open>
  \<^verbatim>\<open>str.lower()\<close> and the regular expression \<^verbatim>\<open>\b\w+\b\<close> on ASCII text: a word
  character is a letter, a digit or the underscore, and \<^verbatim>\<open>re.findall\<close> returns the
  maximal runs of word characters from left to right. Characters outside ASCII are
  outside this model: it leaves them unchanged and treats them as separators.
\<close>

definition lower_char :: "char \<Rightarrow> char" where
  "lower_char c =
     (if CHR ''A'' \<le> c \<and> c \<le> CHR ''Z'' then char_of (of_char c + (32::nat)) else c)"

definition lower :: "string \<Rightarrow> string" where
  "lower s = map lower_char s"

definition is_word_char :: "char \<Rightarrow> bool" where
  "is_word_char c \<longleftrightarrow>
     (CHR ''a'' \<le> c \<and> c \<le> CHR ''z'') \<or> (CHR ''A'' \<le> c \<and> c \<le> CHR ''Z'') \<or>
     (CHR ''0'' \<le> c \<and> c \<le> CHR ''9'') \<or> c = CHR ''_''"

fun scan_words :: "string \<Rightarrow> string \<Rightarrow> string list" where
  "scan_words cur [] = (if cur = [] then [] else [cur])"
| "scan_words cur (c # cs) =
     (if is_word_char c then scan_words (cur @ [c]) cs
      else (if cur = [] then [] else [cur]) @ scan_words [] cs)"

definition findall_words :: "string \<Rightarrow> string list" where
  "findall_words s = scan_words [] s"

text \<open>\<^verbatim>\<open>d.get(k, default)\<close> on an optional attribute.\<close>

definition get_or :: "string option \<Rightarrow> string \<Rightarrow> string" where
  "get_or v d = (case v of None \<Rightarrow> d | Some s \<Rightarrow> s)"

definition correction_text :: "item \<Rightarrow> string" where
  "correction_text correction =
     lower (get_or (UserQuestion correction) []) @ '' '' @
     lower (get_or (OriginalAIResponse correction) []) @ '' '' @
     lower (get_or (Content correction) [])"

text \<open>
  \<^verbatim>\<open>query_keywords\<close> is a Python set: each token once. The test is
  \<^verbatim>\<open>any(keyword in correction_keywords for keyword in query_keywords if len(keyword) > 2)\<close>.
\<close>

definition query_keywords_of :: "string \<Rightarrow> string list" where
  "query_keywords_of user_query = remdups (findall_words (lower user_query))"

definition keyword_match :: "string list \<Rightarrow> item \<Rightarrow> bool" where
  "keyword_match query_keywords correction =
     (let correction_keywords = set (findall_words (correction_text correction))
      in list_ex (\<lambda>keyword. keyword \<in> correction_keywords)
           (filter (\<lambda>keyword. length keyword > 2) query_keywords))"

definition nl :: string where
  "nl = [CHR 0x0A]"

definition format_correction :: "item \<Rightarrow> string" where
  "format_correction correction =
     ''User Question: '' @ get_or (UserQuestion correction) ''N/A'' @ nl @
     ''Original AI Response: '' @ get_or (OriginalAIResponse correction) ''N/A'' @ nl @
     ''Corrected AI Response: '' @ get_or (Content correction) ''N/A''"

text \<open>The \<^verbatim>\<open>for\<close> loop over the fetched corrections, with its \<^verbatim>\<open>break\<close> at three.\<close>

fun collect_relevant :: "string list \<Rightarrow> item list \<Rightarrow> string list \<Rightarrow> string list" where
  "collect_relevant query_keywords [] relevant_corrections = relevant_corrections"
| "collect_relevant query_keywords (correction # rest) relevant_corrections =
     (if keyword_match query_keywords correction
      then (if length (relevant_corrections @ [format_correction correction]) \<ge> 3
            then relevant_corrections @ [format_correction correction]
            else collect_relevant query_keywords rest
                   (relevant_corrections @ [format_correction correction]))
      else collect_relevant query_keywords rest relevant_corrections)"

fun join :: "string \<Rightarrow> string list \<Rightarrow> string" where
  "join sep [] = []"
| "join sep [x] = x"
| "join sep (x # y # ys) = x @ sep @ join sep (y # ys)"

definition corrections_kwargs :: query_kwargs where
  "corrections_kwargs =
     \<lparr> IndexName = ''EventType_Timestamp_Index'',
       KeyEventType = ''ADMIN_CORRECTION'',
       FilterSessionId = None,
       ScanIndexForward = False,
       Limit = Some 20,
       ExclusiveStartKey = None \<rparr>"

definition relevant_corrections_of :: "string \<Rightarrow> query_response \<Rightarrow> string list" where
  "relevant_corrections_of user_query response =
     collect_relevant (query_keywords_of user_query) (get_Items response) []"

text \<open>
  The tool returns a string in every case: the two \<^verbatim>\<open>except\<close> clauses turn an exception
  into a message.
\<close>

definition get_relevant_admin_corrections :: "table \<Rightarrow> string \<Rightarrow> string" where
  "get_relevant_admin_corrections tbl user_query =
     (case tbl corrections_kwargs of
        Inl (ClientError m) \<Rightarrow> ''An error occurred while retrieving admin corrections: '' @ m
      | Inl e \<Rightarrow> ''An unexpected error occurred: '' @ str_of e
      | Inr response \<Rightarrow>
          (let relevant_corrections = relevant_corrections_of user_query response
           in if relevant_corrections \<noteq> []
              then ''Relevant past administrative corrections:'' @ nl @
                   join (nl @ ''---'' @ nl) relevant_corrections
              else ''No relevant administrative corrections found.''))"

section \<open>The record store\<close>

text \<open>
  Modelled from the spec: the record store itself (DynamoDB behind \<^verbatim>\<open>boto3\<close>) is not
  part of the repository. Sections 4.1 and 6 of the specification describe it as an
  append-only store with \<^verbatim>\<open>put(record)\<close> and a query by event kind that returns the
  matching records newest-first by timestamp, one result page at a time, each page
  with a continuation token while records remain. Here the store is the list of its
  records in the order of their writing; a page holds at most \<open>capacity\<close> index
  entries (and at most \<^verbatim>\<open>Limit\<close> of them when the query sets one); the session filter
  applies to the entries of the page; the continuation token is the position reached
  in the index. Records without a timestamp have no place in the index.
\<close>

type_synonym store = "item list"

definition store_put :: "store \<Rightarrow> item \<Rightarrow> py_error + store" where
  "store_put st it = Inr (st @ [it])"

definition token_of :: "nat \<Rightarrow> key" where
  "token_of n = [(''position'', replicate n (CHR ''I''))]"

definition position_of :: "key option \<Rightarrow> nat" where
  "position_of k = (case k of Some [(a, m)] \<Rightarrow> length m | _ \<Rightarrow> 0)"

definition store_index :: "store \<Rightarrow> string \<Rightarrow> bool \<Rightarrow> item list" where
  "store_index st event_type forward =
     (let entries = filter (\<lambda>it. EventType it = Some event_type \<and> Timestamp it \<noteq> None) st
      in if forward then sort_key ts entries else rev (sort_key ts entries))"

definition session_filter :: "string option \<Rightarrow> item list \<Rightarrow> item list" where
  "session_filter f xs =
     (case f of None \<Rightarrow> xs | Some s \<Rightarrow> filter (\<lambda>it. SessionId it = Some s) xs)"

definition store_query :: "nat \<Rightarrow> store \<Rightarrow> table" where
  "store_query capacity st kw =
     (let index = store_index st (KeyEventType kw) (ScanIndexForward kw);
          start = position_of (ExclusiveStartKey kw);
          n = (case Limit kw of None \<Rightarrow> capacity | Some l \<Rightarrow> min l capacity);
          evaluated = take n (drop start index)
      in Inr \<lparr> Items = Some (session_filter (FilterSessionId kw) evaluated),
               LastEvaluatedKey =
                 (if start + n < length index then Some (token_of (start + n)) else None) \<rparr>)"

text \<open>
  Modelled from the spec: a backend that answers the queries for one event type with
  a given finite sequence of result pages, whatever the records in them are. It
  stands for a store whose records the writers of this file did not all write.
\<close>

definition paged_table :: "(string \<Rightarrow> item list list) \<Rightarrow> table" where
  "paged_table pages kw =
     (let ps = pages (KeyEventType kw); n = position_of (ExclusiveStartKey kw)
      in Inr \<lparr> Items = (if n < length ps then Some (ps ! n) else None),
               LastEvaluatedKey =
                 (if Suc n < length ps then Some (token_of (Suc n)) else None) \<rparr>)"

section \<open>Notions of the specification\<close>

text \<open>
  The members of the interaction group \<open>k\<close> that carry a timestamp, in the order in
  which they were fetched, and the group's sort key: the maximum of their timestamps.
\<close>

definition members :: "item list \<Rightarrow> string \<Rightarrow> item list" where
  "members all_items k =
     filter (\<lambda>item. InteractionId item = Some k \<and> Timestamp item \<noteq> None) all_items"

definition latest :: "item list \<Rightarrow> string \<Rightarrow> string" where
  "latest all_items k = Max (set (map ts (members all_items k)))"

text \<open>The record \<open>it\<close> carries the interaction id \<open>k\<close>, and the code takes it as one.\<close>

definition has_id :: "string \<Rightarrow> item \<Rightarrow> bool" where
  "has_id k it \<longleftrightarrow> k \<noteq> [] \<and> InteractionId it = Some k"

text \<open>
  The conversation of the paging loop with its backend from the continuation key \<open>k\<close>
  on: the result pages it receives, and how it ends: with a response that carries no
  continuation key (\<open>None\<close>), or with an exception. A backend has such a conversation
  exactly when its chain of continuation keys is finite.
\<close>

inductive chain ::
  "table \<Rightarrow> string \<Rightarrow> string option \<Rightarrow> key option \<Rightarrow> item list list \<Rightarrow> py_error option \<Rightarrow> bool"
  for tbl :: table and event_type :: string and session_id_filter :: "string option"
where
  chain_last:
    "tbl (history_kwargs event_type session_id_filter k) = Inr response \<Longrightarrow>
     \<not> key_truthy (LastEvaluatedKey response) \<Longrightarrow>
     chain tbl event_type session_id_filter k [get_Items response] None"
| chain_more:
    "tbl (history_kwargs event_type session_id_filter k) = Inr response \<Longrightarrow>
     key_truthy (LastEvaluatedKey response) \<Longrightarrow>
     chain tbl event_type session_id_filter (LastEvaluatedKey response) pages outcome \<Longrightarrow>
     chain tbl event_type session_id_filter k (get_Items response # pages) outcome"
| chain_error:
    "tbl (history_kwargs event_type session_id_filter k) = Inl e \<Longrightarrow>
     chain tbl event_type session_id_filter k [] (Some e)"


section \<open>Concrete inputs\<close>

definition record_of :: "string \<Rightarrow> string option \<Rightarrow> string option \<Rightarrow> string \<Rightarrow> item" where
  "record_of session interaction time event_type =
     \<lparr> SessionId = Some session, InteractionId = interaction, Timestamp = time,
       EventType = Some event_type, Timestamp_EventType = None, Content = None,
       UserQuestion = None, OriginalAIResponse = None, AdminId = None,
       CorrectionTimestamp = None \<rparr>"

text \<open>
  Three interactions with timestamps, one (\<open>i4\<close>) whose only record has none, and one
  record without an interaction id; the backend returns them in two pages per read.
\<close>

definition sample_pages :: "string \<Rightarrow> item list list" where
  "sample_pages event_type =
     (if event_type = ''AI_RESPONSE''
      then [[record_of ''s2'' (Some ''i3'') (Some ''06'') ''AI_RESPONSE''],
            [record_of ''s1'' (Some ''i2'') (Some ''04'') ''AI_RESPONSE'',
             record_of ''s1'' (Some ''i1'') (Some ''02'') ''AI_RESPONSE'']]
      else if event_type = ''QUESTION''
      then [[record_of ''s3'' None (Some ''07'') ''QUESTION'',
             record_of ''s2'' (Some ''i3'') (Some ''05'') ''QUESTION''],
            [record_of ''s1'' (Some ''i2'') (Some ''03'') ''QUESTION'',
             record_of ''s1'' (Some ''i1'') (Some ''01'') ''QUESTION'',
             record_of ''s4'' (Some ''i4'') None ''QUESTION'']]
      else if event_type = ''ADMIN_CORRECTION''
      then [[record_of ''s1'' (Some ''i1'') (Some ''09'') ''ADMIN_CORRECTION'']]
      else [])"

definition sample_items :: "item list" where
  "sample_items =
     concat (sample_pages ''AI_RESPONSE'') @ concat (sample_pages ''QUESTION'') @
     concat (sample_pages ''ADMIN_CORRECTION'')"

text \<open>Twenty-five interactions of one question each.\<close>

definition question_number :: "nat \<Rightarrow> item" where
  "question_number n =
     record_of ''s'' (Some (replicate (Suc n) (CHR ''i''))) (Some (replicate (Suc n) (CHR ''0'')))
       ''QUESTION''"

definition many_pages :: "string \<Rightarrow> item list list" where
  "many_pages event_type =
     (if event_type = ''QUESTION'' then [map question_number [0..<25]] else [])"

definition mileage_correction :: item where
  "mileage_correction =
     (record_of ''s1'' (Some ''i1'') (Some ''2024-05-01T10:00:00.000Z'') ''ADMIN_CORRECTION'')
       \<lparr> Content := Some ''unlimited mileage applies to all rentals'' \<rparr>"

definition failing_table :: table where
  "failing_table kw = Inl (ClientError ''ProvisionedThroughputExceededException'')"






section \<open>Grouping\<close>

lemma map_fst_dict_append:
  "map fst (dict_append d k v) = (if k \<in> fst ` set d then map fst d else map fst d @ [k])"
  by (induction d k v rule: dict_append.induct) auto

lemma keys_dict_append: "fst ` set (dict_append d k v) = insert k (fst ` set d)"
proof -
  have "set (map fst (dict_append d k v)) = insert k (set (map fst d))"
    unfolding map_fst_dict_append by auto
  then show ?thesis by simp
qed

lemma map_of_dict_append:
  "map_of (dict_append d k v) k' =
     (if k' = k then Some ((case map_of d k of None \<Rightarrow> [] | Some vs \<Rightarrow> vs) @ [v])
      else map_of d k')"
  by (induction d k v rule: dict_append.induct) auto

lemma distinct_dict_append:
  "distinct (map fst d) \<Longrightarrow> distinct (map fst (dict_append d k v))"
  by (simp add: map_fst_dict_append)

lemma distinct_group_items:
  "distinct (map fst d) \<Longrightarrow> distinct (map fst (group_items d its))"
  by (induction d its rule: group_items.induct) (simp_all add: distinct_dict_append)

lemma map_of_group_items:
  "map_of (group_items d its) k =
     (if k \<in> fst ` set d \<or> (\<exists>it \<in> set its. has_id k it)
      then Some ((case map_of d k of None \<Rightarrow> [] | Some vs \<Rightarrow> vs) @ filter (has_id k) its)
      else None)"
proof (induction d its rule: group_items.induct)
  case (1 d)
  then show ?case
    by (auto simp: map_of_eq_None_iff [symmetric] simp del: map_of_eq_None_iff
        split: option.splits)
next
  case (2 d it its)
  show ?case
  proof (cases "truthy (InteractionId it)")
    case True
    then obtain k' where "InteractionId it = Some k'" "k' \<noteq> []"
      by (auto simp: truthy_def split: option.splits)
    with 2 True show ?thesis
      by (auto simp: has_id_def map_of_dict_append keys_dict_append)
  next
    case False
    with 2 show ?thesis
      by (auto simp: has_id_def truthy_def)
  qed
qed

lemma map_fst_sort_groups: "map fst (sort_groups d) = map fst d"
  by (induction d) (auto simp: sort_groups_def)

lemma map_of_sort_groups: "map_of (sort_groups d) k = map_option sort_group (map_of d k)"
  by (induction d) (auto simp: sort_groups_def)

lemma sort_key_eq_Nil: "sort_key f xs = [] \<longleftrightarrow> xs = []"
  using length_sort [of f xs] by (metis length_0_conv)

lemma distinct_grouped: "distinct (map fst (grouped_interactions all_items))"
  by (simp add: grouped_interactions_def map_fst_sort_groups distinct_group_items)

lemma sort_group_has_id:
  "k \<noteq> [] \<Longrightarrow> sort_group (filter (has_id k) all_items) = sort_key ts (members all_items k)"
  by (simp add: sort_group_def members_def has_id_def conj_commute)

lemma map_of_grouped:
  "map_of (grouped_interactions all_items) k =
     (if k \<noteq> [] \<and> (\<exists>it \<in> set all_items. InteractionId it = Some k)
      then Some (sort_key ts (members all_items k)) else None)"
  by (auto simp: grouped_interactions_def map_of_sort_groups map_of_group_items
      sort_group_has_id has_id_def)

lemma members_nonempty_has_item:
  "members all_items k \<noteq> [] \<Longrightarrow> \<exists>it \<in> set all_items. InteractionId it = Some k"
  by (auto simp: members_def filter_empty_conv)

lemma grouped_entry:
  "(k, items) \<in> set (grouped_interactions all_items) \<longleftrightarrow>
     k \<noteq> [] \<and> (\<exists>it \<in> set all_items. InteractionId it = Some k) \<and>
     items = sort_key ts (members all_items k)"
proof -
  have "(k, items) \<in> set (grouped_interactions all_items) \<longleftrightarrow>
        map_of (grouped_interactions all_items) k = Some items"
    using distinct_grouped [of all_items] by (simp add: map_of_eq_Some_iff)
  then show ?thesis
    by (auto simp: map_of_grouped)
qed

text \<open>No \<^verbatim>\<open>KeyError\<close> in step 3 or 4: every item of a sorted group has its timestamp.\<close>

lemma grouped_have_Timestamp:
  "(k, items) \<in> set (grouped_interactions all_items) \<Longrightarrow> x \<in> set items \<Longrightarrow>
   Timestamp x \<noteq> None \<and> InteractionId x = Some k \<and> x \<in> set all_items"
  by (auto simp: grouped_entry members_def)

section \<open>Ordering of the groups\<close>

lemma py_max_Max: "xs \<noteq> [] \<Longrightarrow> py_max xs = Max (set xs)"
  by (cases xs) (simp_all add: Max.set_eq_fold [symmetric] del: set_simps)

lemma set_interaction_id_sort_keys:
  "set (interaction_id_sort_keys d) =
     {(py_max (map ts items), k) | k items. (k, items) \<in> set d \<and> items \<noteq> []}"
  by (auto simp: interaction_id_sort_keys_def)

lemma map_snd_interaction_id_sort_keys:
  "map snd (interaction_id_sort_keys d) = map fst (filter (\<lambda>(k, items). items \<noteq> []) d)"
  by (induction d) (auto simp: interaction_id_sort_keys_def)

lemma set_sort_reverse: "set (sort_reverse xs) = set xs"
  by (simp add: sort_reverse_def)

lemma distinct_map_sort_reverse: "distinct (map f (sort_reverse xs)) = distinct (map f xs)"
  by (simp add: sort_reverse_def distinct_map)

lemma sorted_wrt_sort_reverse: "sorted_wrt (\<lambda>a b. fst a \<ge> fst b) (sort_reverse xs)"
proof -
  have "sorted (map fst (sort_key fst (rev xs)))"
    by simp
  then have "sorted_wrt (\<lambda>a b. fst a \<le> fst b) (sort_key fst (rev xs))"
    by (simp add: sorted_map)
  then show ?thesis
    unfolding sort_reverse_def by (simp add: sorted_wrt_rev)
qed

lemma distinct_ordered_interaction_ids:
  assumes "distinct (map fst d)"
  shows "distinct (ordered_interaction_ids d)"
proof -
  have "distinct (map snd (interaction_id_sort_keys d))"
    using assms by (simp add: map_snd_interaction_id_sort_keys distinct_map_filter)
  then show ?thesis
    unfolding ordered_interaction_ids_def by (simp add: distinct_map_sort_reverse)
qed

lemma set_ordered_interaction_ids:
  "set (ordered_interaction_ids d) = {k. \<exists>items. (k, items) \<in> set d \<and> items \<noteq> []}"
  by (force simp: ordered_interaction_ids_def set_sort_reverse set_interaction_id_sort_keys image_iff)

lemma sorted_ordered_interaction_ids:
  assumes "distinct (map fst d)"
  shows "sorted_wrt (\<lambda>a b. py_max (map ts (the (map_of d a))) \<ge> py_max (map ts (the (map_of d b))))
           (ordered_interaction_ids d)"
proof -
  let ?g = "\<lambda>k. py_max (map ts (the (map_of d k)))"
  have key: "fst p = ?g (snd p)" if "p \<in> set (sort_reverse (interaction_id_sort_keys d))" for p
  proof -
    from that obtain k items where "p = (py_max (map ts items), k)" "(k, items) \<in> set d"
      by (auto simp: set_sort_reverse set_interaction_id_sort_keys)
    with assms show ?thesis by simp
  qed
  have "sorted_wrt (\<lambda>a b. fst a \<ge> fst b) (sort_reverse (interaction_id_sort_keys d))"
    by (rule sorted_wrt_sort_reverse)
  then have "sorted_wrt (\<lambda>a b. ?g (snd a) \<ge> ?g (snd b)) (sort_reverse (interaction_id_sort_keys d))"
    by (rule sorted_wrt_mono_rel [rotated]) (simp add: key)
  then show ?thesis
    by (simp add: ordered_interaction_ids_def sorted_wrt_map)
qed

lemma set_ordered_grouped:
  "set (ordered_interaction_ids (grouped_interactions all_items)) =
     {k. k \<noteq> [] \<and> members all_items k \<noteq> []}"
  using members_nonempty_has_item [of all_items]
  by (auto simp: set_ordered_interaction_ids grouped_entry sort_key_eq_Nil)

lemma map_of_grouped_ordered:
  assumes "k \<in> set (ordered_interaction_ids (grouped_interactions all_items))"
  shows "map_of (grouped_interactions all_items) k = Some (sort_key ts (members all_items k))"
proof -
  from assms have k: "k \<noteq> []" "members all_items k \<noteq> []"
    by (simp_all add: set_ordered_grouped)
  then have "\<exists>it \<in> set all_items. InteractionId it = Some k"
    by (simp add: members_nonempty_has_item)
  with k show ?thesis
    by (simp add: map_of_grouped)
qed

lemma sorted_ordered_grouped:
  "sorted_wrt (\<lambda>a b. latest all_items a \<ge> latest all_items b)
     (ordered_interaction_ids (grouped_interactions all_items))"
proof -
  let ?ids = "ordered_interaction_ids (grouped_interactions all_items)"
  let ?g = "\<lambda>k. py_max (map ts (the (map_of (grouped_interactions all_items) k)))"
  have eq: "?g k = latest all_items k" if "k \<in> set ?ids" for k
  proof -
    from that have "members all_items k \<noteq> []"
      by (simp add: set_ordered_grouped)
    then have "map ts (sort_key ts (members all_items k)) \<noteq> []"
      by (simp add: sort_key_eq_Nil)
    then show ?thesis
      using map_of_grouped_ordered [OF that] by (simp add: py_max_Max latest_def)
  qed
  have "sorted_wrt (\<lambda>a b. ?g a \<ge> ?g b) ?ids"
    by (rule sorted_ordered_interaction_ids) (rule distinct_grouped)
  then show ?thesis
    by (rule sorted_wrt_mono_rel [rotated]) (simp add: eq)
qed

lemma distinct_ordered_grouped:
  "distinct (ordered_interaction_ids (grouped_interactions all_items))"
  by (rule distinct_ordered_interaction_ids) (rule distinct_grouped)

section \<open>Pagination\<close>

lemma set_py_slice: "set (py_slice xs a b) \<subseteq> set xs"
  unfolding py_slice_def Let_def
  by (meson set_take_subset set_drop_subset subset_trans)

lemma py_slice_page:
  assumes "0 \<le> start" "0 \<le> limit"
  shows "py_slice xs start (start + limit) = take (nat limit) (drop (nat start) xs)"
proof (cases "start \<le> int (length xs)")
  case True
  with assms have "nat (min (start + limit) (int (length xs)) - start)
      = min (nat limit) (length xs - nat start)"
    by (auto simp: min_def)
  with True assms show ?thesis
    by (simp add: py_slice_def Let_def min_def take_all_iff)
next
  case False
  with assms show ?thesis
    by (simp add: py_slice_def Let_def min_def)
qed

lemma paginated_take_drop:
  assumes "1 \<le> page" "1 \<le> limit"
  shows "paginated_interaction_ids ids page limit =
           take (nat limit) (drop (nat (page - 1) * nat limit) ids)"
proof -
  have "nat ((page - 1) * limit) = nat (page - 1) * nat limit"
    using assms by (simp add: nat_mult_distrib)
  with assms show ?thesis
    by (simp add: paginated_interaction_ids_def Let_def py_slice_page)
qed

lemma total_pages_bounds:
  assumes "1 \<le> limit"
  shows "int n \<le> ((int n + limit - 1) div limit) * limit"
    and "((int n + limit - 1) div limit - 1) * limit < int n"
proof -
  define q where "q = (int n + limit - 1) div limit"
  define r where "r = (int n + limit - 1) mod limit"
  have eq: "int n + limit - 1 = q * limit + r"
    by (simp add: q_def r_def)
  have r: "0 \<le> r" "r < limit"
    using assms by (simp_all add: r_def)
  show "int n \<le> ((int n + limit - 1) div limit) * limit"
    using eq r unfolding q_def [symmetric] by linarith
  have "(q - 1) * limit = q * limit - limit"
    by (simp add: algebra_simps)
  then show "((int n + limit - 1) div limit - 1) * limit < int n"
    using eq r unfolding q_def [symmetric] by linarith
qed

lemma total_pages_ceiling:
  assumes "1 \<le> limit"
  shows "(int n + limit - 1) div limit = \<lceil>real n / real_of_int limit\<rceil>"
proof -
  define q where "q = (int n + limit - 1) div limit"
  have pos: "0 < real_of_int limit"
    using assms by simp
  have "real_of_int (int n) \<le> real_of_int (q * limit)"
    using total_pages_bounds(1) [OF assms, of n] unfolding q_def
    by (rule of_int_le_iff [THEN iffD2])
  then have up: "real n / real_of_int limit \<le> real_of_int q"
    using pos by (simp add: pos_divide_le_eq)
  have "real_of_int ((q - 1) * limit) < real_of_int (int n)"
    using total_pages_bounds(2) [OF assms, of n] unfolding q_def
    by (rule of_int_less_iff [THEN iffD2])
  then have lo: "real_of_int q - 1 < real n / real_of_int limit"
    using pos by (simp add: pos_less_divide_eq)
  show ?thesis
    unfolding q_def [symmetric] using lo up by (rule ceiling_unique [symmetric])
qed

lemma concat_chunks_take:
  "concat (map (\<lambda>p. take m (drop (p * m) xs)) [0..<n]) = take (n * m) xs"
proof (induction n)
  case 0
  then show ?case by simp
next
  case (Suc n)
  have "take (Suc n * m) xs = take (n * m + m) xs"
    by (simp add: add.commute)
  also have "\<dots> = take (n * m) xs @ take m (drop (n * m) xs)"
    by (rule take_add)
  finally show ?case
    using Suc by simp
qed

lemma concat_pages:
  assumes "1 \<le> limit"
  shows "concat (map (\<lambda>p. paginated_interaction_ids ids (int p) limit)
           [1..<Suc (nat ((int (length ids) + limit - 1) div limit))]) = ids"
proof -
  define N where "N = nat ((int (length ids) + limit - 1) div limit)"
  have "0 \<le> (int (length ids) + limit - 1) div limit"
    using assms by (simp add: pos_imp_zdiv_nonneg_iff)
  then have "int (length ids) \<le> int N * limit"
    using total_pages_bounds(1) [OF assms, of "length ids"] by (simp add: N_def)
  then have "int (length ids) \<le> int (N * nat limit)"
    using assms by simp
  then have len: "length ids \<le> N * nat limit"
    by linarith
  have "map (\<lambda>p. paginated_interaction_ids ids (int p) limit) [1..<Suc N]
        = map (\<lambda>p. take (nat limit) (drop (p * nat limit) ids)) [0..<N]"
    using assms by (simp add: map_Suc_upt [symmetric] paginated_take_drop del: upt_Suc)
  then show ?thesis
    unfolding N_def [symmetric] using len by (simp add: concat_chunks_take)
qed

lemma page_beyond_last:
  assumes "1 \<le> limit" "(int (length ids) + limit - 1) div limit < page"
  shows "paginated_interaction_ids ids page limit = []"
proof -
  define q where "q = (int (length ids) + limit - 1) div limit"
  have "0 \<le> q"
    using assms by (simp add: q_def pos_imp_zdiv_nonneg_iff)
  have "int (length ids) \<le> q * limit"
    using total_pages_bounds(1) [OF assms(1), of "length ids"] by (simp add: q_def)
  also have "q * limit \<le> (page - 1) * limit"
    using assms by (intro mult_right_mono) (simp_all add: q_def)
  finally have "length ids \<le> nat (page - 1) * nat limit"
    using assms \<open>0 \<le> q\<close> by (simp add: q_def nat_mult_distrib [symmetric] nat_le_iff)
  moreover have "1 \<le> page"
    using assms \<open>0 \<le> q\<close> by (simp add: q_def)
  ultimately show ?thesis
    using assms by (simp add: paginated_take_drop)
qed

lemma flatten_grouped:
  assumes "set ids \<subseteq> set (ordered_interaction_ids (grouped_interactions all_items))"
  shows "flatten (grouped_interactions all_items) ids =
           Inr (concat (map (\<lambda>k. sort_key ts (members all_items k)) ids))"
  using assms
proof (induction ids)
  case Nil
  then show ?case by simp
next
  case (Cons k ids)
  then have "map_of (grouped_interactions all_items) k = Some (sort_key ts (members all_items k))"
    by (simp add: map_of_grouped_ordered)
  with Cons show ?case by simp
qed

text \<open>
  The response of the handler once the reads have succeeded: for a \<open>limit\<close> other
  than 0 it is a 200 response, and no \<^verbatim>\<open>KeyError\<close> can occur.
\<close>

lemma history_page_ok:
  assumes "limit \<noteq> 0"
  shows "history_page all_items page limit =
     Inr (History
       \<lparr> totalInteractionGroups = length (ordered_interaction_ids (grouped_interactions all_items)),
         totalIndividualLogEntries = length all_items,
         totalQuestions = count_event_type ''QUESTION'' all_items,
         totalAIResponses = count_event_type ''AI_RESPONSE'' all_items,
         totalAdminCorrections = count_event_type ''ADMIN_CORRECTION'' all_items,
         uniqueSessionCount = unique_session_count all_items \<rparr>
       (concat (map (\<lambda>k. sort_key ts (members all_items k))
          (paginated_interaction_ids (ordered_interaction_ids (grouped_interactions all_items))
             page limit)))
       \<lparr> current_page = page,
         total_pages =
           (int (length (ordered_interaction_ids (grouped_interactions all_items))) + limit - 1)
             div limit,
         total_interaction_groups = length (ordered_interaction_ids (grouped_interactions all_items)),
         limit_per_page = limit \<rparr>)"
proof -
  let ?ids = "ordered_interaction_ids (grouped_interactions all_items)"
  have "set (paginated_interaction_ids ?ids page limit) \<subseteq> set ?ids"
    by (simp add: paginated_interaction_ids_def Let_def set_py_slice)
  then have "flatten (grouped_interactions all_items) (paginated_interaction_ids ?ids page limit)
      = Inr (concat (map (\<lambda>k. sort_key ts (members all_items k))
               (paginated_interaction_ids ?ids page limit)))"
    by (rule flatten_grouped)
  with assms show ?thesis
    by (simp add: history_page_def Let_def)
qed

lemma handle_history_ok:
  assumes "fetch_all_items tbl session_id_filter = Some (Inr all_items)" "limit \<noteq> 0"
  shows "handle_admin_history_request tbl session_id_filter page limit =
     Some (200, History
       \<lparr> totalInteractionGroups = length (ordered_interaction_ids (grouped_interactions all_items)),
         totalIndividualLogEntries = length all_items,
         totalQuestions = count_event_type ''QUESTION'' all_items,
         totalAIResponses = count_event_type ''AI_RESPONSE'' all_items,
         totalAdminCorrections = count_event_type ''ADMIN_CORRECTION'' all_items,
         uniqueSessionCount = unique_session_count all_items \<rparr>
       (concat (map (\<lambda>k. sort_key ts (members all_items k))
          (paginated_interaction_ids (ordered_interaction_ids (grouped_interactions all_items))
             page limit)))
       \<lparr> current_page = page,
         total_pages =
           (int (length (ordered_interaction_ids (grouped_interactions all_items))) + limit - 1)
             div limit,
         total_interaction_groups = length (ordered_interaction_ids (grouped_interactions all_items)),
         limit_per_page = limit \<rparr>)"
  using assms by (simp add: handle_admin_history_request_def history_page_ok)

section \<open>The paging loop\<close>

lemma fetch_loop_chain:
  assumes "chain tbl event_type session_id_filter k pages outcome"
  shows "fetch_loop tbl event_type session_id_filter acc k =
           Some (case outcome of None \<Rightarrow> Inr (acc @ concat pages) | Some e \<Rightarrow> Inl e)"
  using assms
proof (induction arbitrary: acc rule: chain.induct)
  case (chain_last k response)
  then show ?case by (subst fetch_loop.simps) simp
next
  case (chain_more k response pages outcome)
  show ?case
    by (subst fetch_loop.simps) (simp add: chain_more split: option.splits)
next
  case (chain_error k e)
  then show ?case by (subst fetch_loop.simps) simp
qed

lemma position_of_token: "position_of (Some (token_of n)) = n"
  by (simp add: position_of_def token_of_def)

lemma key_truthy_token: "key_truthy (Some (token_of n))"
  by (simp add: key_truthy_def token_of_def)

lemma position_of_start_key:
  "position_of (if key_truthy k then k else None) = position_of k"
  by (auto simp: key_truthy_def position_of_def split: option.splits)

lemma session_filter_append:
  "session_filter f (xs @ ys) = session_filter f xs @ session_filter f ys"
  by (simp add: session_filter_def split: option.splits)

lemma store_query_history:
  "store_query capacity st (history_kwargs event_type session_id_filter k) =
     Inr \<lparr> Items = Some (session_filter (if truthy session_id_filter then session_id_filter else None)
                    (take capacity (drop (position_of k) (store_index st event_type False)))),
           LastEvaluatedKey =
             (if position_of k + capacity < length (store_index st event_type False)
              then Some (token_of (position_of k + capacity)) else None) \<rparr>"
  by (simp add: store_query_def history_kwargs_def Let_def position_of_start_key)

text \<open>
  On the record store the loop ends whenever a page holds at least one index entry,
  and it returns every matching record, newest first.
\<close>

lemma fetch_loop_store:
  assumes "0 < capacity"
  shows "fetch_loop (store_query capacity st) event_type session_id_filter acc k =
           Some (Inr (acc @ session_filter (if truthy session_id_filter then session_id_filter else None)
                   (drop (position_of k) (store_index st event_type False))))"
proof (induction "length (store_index st event_type False) - position_of k"
    arbitrary: k acc rule: less_induct)
  case less
  let ?idx = "store_index st event_type False"
  let ?p = "position_of k"
  let ?f = "if truthy session_id_filter then session_id_filter else None"
  show ?case
  proof (cases "?p + capacity < length ?idx")
    case True
    have "length ?idx - position_of (Some (token_of (?p + capacity))) < length ?idx - ?p"
      using True assms(1) by (simp add: position_of_token)
    then have IH: "fetch_loop (store_query capacity st) event_type session_id_filter acc'
          (Some (token_of (?p + capacity)))
        = Some (Inr (acc' @ session_filter ?f (drop (?p + capacity) ?idx)))" for acc'
      using less.hyps [of "Some (token_of (?p + capacity))" acc'] by (simp add: position_of_token)
    have split: "take capacity (drop ?p ?idx) @ drop (?p + capacity) ?idx = drop ?p ?idx"
      by (metis append_take_drop_id drop_drop add.commute)
    have "session_filter ?f (take capacity (drop ?p ?idx)) @ session_filter ?f (drop (?p + capacity) ?idx)
          = session_filter ?f (drop ?p ?idx)"
      unfolding session_filter_append [symmetric] split ..
    with True show ?thesis
      by (subst fetch_loop.simps)
         (simp add: store_query_history get_Items_def IH key_truthy_token)
  next
    case False
    then have "take capacity (drop ?p ?idx) = drop ?p ?idx"
      by simp
    with False show ?thesis
      by (subst fetch_loop.simps)
         (simp add: store_query_history get_Items_def key_truthy_def)
  qed
qed

lemma fetch_store:
  "0 < capacity \<Longrightarrow>
   fetch_all_items_for_event_type (store_query capacity st) event_type session_id_filter =
     Some (Inr (session_filter (if truthy session_id_filter then session_id_filter else None)
                  (store_index st event_type False)))"
  by (simp add: fetch_all_items_for_event_type_def fetch_loop_store position_of_def)

lemma paged_table_history:
  "paged_table pages (history_kwargs event_type session_id_filter k) =
     Inr \<lparr> Items = (if position_of k < length (pages event_type)
                    then Some (pages event_type ! position_of k) else None),
           LastEvaluatedKey =
             (if Suc (position_of k) < length (pages event_type)
              then Some (token_of (Suc (position_of k))) else None) \<rparr>"
  by (simp add: paged_table_def history_kwargs_def Let_def position_of_start_key)

lemma fetch_loop_paged:
  "fetch_loop (paged_table pages) event_type session_id_filter acc k =
     Some (Inr (acc @ concat (drop (position_of k) (pages event_type))))"
proof (induction "length (pages event_type) - position_of k" arbitrary: k acc rule: less_induct)
  case less
  let ?ps = "pages event_type"
  let ?p = "position_of k"
  show ?case
  proof (cases "Suc ?p < length ?ps")
    case True
    have "length ?ps - position_of (Some (token_of (Suc ?p))) < length ?ps - ?p"
      using True by (simp add: position_of_token)
    then have IH: "fetch_loop (paged_table pages) event_type session_id_filter acc'
          (Some (token_of (Suc ?p))) = Some (Inr (acc' @ concat (drop (Suc ?p) ?ps)))" for acc'
      using less.hyps [of "Some (token_of (Suc ?p))" acc'] by (simp add: position_of_token)
    have "drop ?p ?ps = ?ps ! ?p # drop (Suc ?p) ?ps"
      using True by (simp add: Cons_nth_drop_Suc)
    with True show ?thesis
      by (subst fetch_loop.simps)
         (simp add: paged_table_history get_Items_def IH key_truthy_token)
  next
    case False
    show ?thesis
    proof (cases "?p < length ?ps")
      case True
      with False have "drop ?p ?ps = [?ps ! ?p]"
        by (metis Cons_nth_drop_Suc drop_all not_less)
      with True False show ?thesis
        by (subst fetch_loop.simps)
           (simp add: paged_table_history get_Items_def key_truthy_def)
    next
      case False
      then show ?thesis
        by (subst fetch_loop.simps)
           (simp add: paged_table_history get_Items_def key_truthy_def)
    qed
  qed
qed

lemma fetch_paged:
  "fetch_all_items_for_event_type (paged_table pages) event_type session_id_filter =
     Some (Inr (concat (pages event_type)))"
  by (simp add: fetch_all_items_for_event_type_def fetch_loop_paged position_of_def)

lemma fetch_all_items_paged:
  "fetch_all_items (paged_table pages) session_id_filter =
     Some (Inr (concat (pages ''AI_RESPONSE'') @ concat (pages ''QUESTION'') @
                concat (pages ''ADMIN_CORRECTION'')))"
  by (simp add: fetch_all_items_def fetch_paged)

section \<open>Claims\<close>

text \<open>
  Claim C9. The read used by the history query returns the concatenation of every
  result page of the backend, asking for the next page until a response carries no
  continuation key; whenever the backend's chain of continuation keys is finite, the
  loop ends (its result is \<open>Some\<close>). Should the backend raise on the way, the loop
  ends with that exception.
\<close>

theorem fetch_all_pages:
  assumes "chain tbl event_type session_id_filter None pages outcome"
  shows "fetch_all_items_for_event_type tbl event_type session_id_filter =
           Some (case outcome of None \<Rightarrow> Inr (concat pages) | Some e \<Rightarrow> Inl e)"
  using fetch_loop_chain [OF assms, of "[]"]
  by (simp add: fetch_all_items_for_event_type_def split: option.splits)

theorem fetch_all_pages_witness:
  "chain (paged_table sample_pages) ''QUESTION'' None None (sample_pages ''QUESTION'') None \<and>
   fetch_all_items_for_event_type (paged_table sample_pages) ''QUESTION'' None =
     Some (Inr (concat (sample_pages ''QUESTION'')))"
proof -
  let ?t = "paged_table sample_pages"
  have r1: "?t (history_kwargs ''QUESTION'' None None) =
      Inr \<lparr> Items = Some (sample_pages ''QUESTION'' ! 0), LastEvaluatedKey = Some (token_of 1) \<rparr>"
    by (simp add: paged_table_history position_of_def sample_pages_def)
  have r2: "?t (history_kwargs ''QUESTION'' None (Some (token_of 1))) =
      Inr \<lparr> Items = Some (sample_pages ''QUESTION'' ! 1), LastEvaluatedKey = None \<rparr>"
    by (simp add: paged_table_history position_of_token sample_pages_def)
  have "chain ?t ''QUESTION'' None (Some (token_of 1)) [sample_pages ''QUESTION'' ! 1] None"
    using chain_last [of ?t "''QUESTION''" None "Some (token_of 1)", OF r2]
    by (simp add: key_truthy_def get_Items_def)
  then have "chain ?t ''QUESTION'' None None
      [sample_pages ''QUESTION'' ! 0, sample_pages ''QUESTION'' ! 1] None"
    using chain_more [of ?t "''QUESTION''" None None, OF r1]
    by (simp add: key_truthy_token get_Items_def)
  moreover have "[sample_pages ''QUESTION'' ! 0, sample_pages ''QUESTION'' ! 1] =
      sample_pages ''QUESTION''"
    by (simp add: sample_pages_def)
  ultimately have c: "chain ?t ''QUESTION'' None None (sample_pages ''QUESTION'') None"
    by simp
  from fetch_all_pages [OF c] c show ?thesis
    by simp
qed

text \<open>
  Claim C2. For \<open>page \<ge> 1\<close> and \<open>limit \<ge> 1\<close> the pagination works on the ordered list
  of interaction groups, not on records: the number of pages is the ceiling of the
  number of groups over the page size; the page holds the groups at the positions
  from \<open>(page - 1) * limit\<close> up to \<open>page * limit\<close>, as far as they exist, each with all
  its records; a page after the last one is empty and still a 200 response. With 25
  groups and a page size of 10 there are 3 pages, page 3 has 5 groups and page 4 none.
\<close>

theorem pagination_of_groups:
  assumes "fetch_all_items tbl session_id_filter = Some (Inr all_items)"
    and "1 \<le> page" and "1 \<le> limit"
  shows "\<exists>s h m.
     handle_admin_history_request tbl session_id_filter page limit = Some (200, History s h m) \<and>
     total_interaction_groups m = length (ordered_ids_of all_items) \<and>
     total_pages m = \<lceil>real (length (ordered_ids_of all_items)) / real_of_int limit\<rceil> \<and>
     paginated_interaction_ids (ordered_ids_of all_items) page limit =
       take (nat limit) (drop (nat ((page - 1) * limit)) (ordered_ids_of all_items)) \<and>
     h = concat (map (\<lambda>k. sort_key ts (members all_items k))
           (take (nat limit) (drop (nat ((page - 1) * limit)) (ordered_ids_of all_items)))) \<and>
     (total_pages m < page \<longrightarrow> h = []) \<and>
     (length (ordered_ids_of all_items) = 25 \<and> limit = 10 \<longrightarrow>
        total_pages m = 3 \<and>
        (page = 3 \<longrightarrow> length (paginated_interaction_ids (ordered_ids_of all_items) page limit) = 5) \<and>
        (page = 4 \<longrightarrow> paginated_interaction_ids (ordered_ids_of all_items) page limit = [] \<and> h = []))"
proof -
  let ?ids = "ordered_ids_of all_items"
  let ?page_ids = "paginated_interaction_ids ?ids page limit"
  let ?h = "concat (map (\<lambda>k. sort_key ts (members all_items k)) ?page_ids)"
  let ?pages = "(int (length ?ids) + limit - 1) div limit"
  from assms have nz: "limit \<noteq> 0"
    by simp
  have slice: "?page_ids = take (nat limit) (drop (nat ((page - 1) * limit)) ?ids)"
    using assms by (simp add: paginated_take_drop nat_mult_distrib)
  have ceil: "?pages = \<lceil>real (length ?ids) / real_of_int limit\<rceil>"
    using assms by (simp add: total_pages_ceiling)
  have beyond: "?pages < page \<longrightarrow> ?h = []"
    using assms by (simp add: page_beyond_last)
  have ex: "length ?ids = 25 \<and> limit = 10 \<longrightarrow>
        ?pages = 3 \<and> (page = 3 \<longrightarrow> length ?page_ids = 5) \<and> (page = 4 \<longrightarrow> ?page_ids = [] \<and> ?h = [])"
  proof (intro impI conjI)
    assume a: "length ?ids = 25 \<and> limit = 10"
    then show "?pages = 3" by simp
    show "length ?page_ids = 5" if "page = 3"
      unfolding slice using a that by simp
    show "?page_ids = []" if "page = 4"
      unfolding slice using a that by simp
    then show "?h = []" if "page = 4"
      using that by simp
  qed
  show ?thesis
    unfolding handle_history_ok [OF assms(1) nz, folded ordered_ids_of_def]
    using slice ceil beyond ex by (simp add: slice [symmetric])
qed

theorem pagination_of_groups_witness:
  "fetch_all_items (paged_table many_pages) None = Some (Inr (map question_number [0..<25])) \<and>
   length (ordered_ids_of (map question_number [0..<25])) = 25 \<and>
   (\<exists>s h m. handle_admin_history_request (paged_table many_pages) None 3 10 =
        Some (200, History s h m) \<and> total_pages m = 3 \<and>
        length (paginated_interaction_ids (ordered_ids_of (map question_number [0..<25])) 3 10) = 5) \<and>
   (\<exists>s h m. handle_admin_history_request (paged_table many_pages) None 4 10 =
        Some (200, History s h m) \<and> total_pages m = 3 \<and> h = [])"
proof -
  have f: "fetch_all_items (paged_table many_pages) None = Some (Inr (map question_number [0..<25]))"
    by (simp add: fetch_all_items_paged many_pages_def)
  have l: "length (ordered_ids_of (map question_number [0..<25])) = 25"
    by code_simp
  have p3: "\<exists>s h m. handle_admin_history_request (paged_table many_pages) None 3 10 =
        Some (200, History s h m) \<and> total_pages m = 3 \<and>
        length (paginated_interaction_ids (ordered_ids_of (map question_number [0..<25])) 3 10) = 5"
    using pagination_of_groups [OF f, of 3 10] l by auto
  have p4: "\<exists>s h m. handle_admin_history_request (paged_table many_pages) None 4 10 =
        Some (200, History s h m) \<and> total_pages m = 3 \<and> h = []"
    using pagination_of_groups [OF f, of 4 10] l by auto
  from f l p3 p4 show ?thesis
    by blast
qed

lemma sorted_wrt_py_slice: "sorted_wrt P xs \<Longrightarrow> sorted_wrt P (py_slice xs a b)"
  unfolding py_slice_def Let_def by (intro sorted_wrt_take sorted_wrt_drop)

lemma sorted_wrt_strict_index:
  fixes f :: "'a \<Rightarrow> 'b::linorder"
  assumes "sorted_wrt (\<lambda>a b. f b \<le> f a) xs" "i < length xs" "j < length xs" "f (xs ! j) < f (xs ! i)"
  shows "i < j"
proof (rule ccontr)
  assume "\<not> i < j"
  then consider "j < i" | "j = i" by linarith
  then show False
  proof cases
    case 1
    with assms(1,2) have "f (xs ! i) \<le> f (xs ! j)"
      by (simp add: sorted_wrt_iff_nth_less)
    with assms(4) show False by simp
  next
    case 2
    with assms(4) show False by simp
  qed
qed

text \<open>
  Claim C1. In every history response (any page, any page size other than 0) the
  interaction groups are in descending order of their sort key, the maximum timestamp
  among the members that carry one; a group with a strictly greater key comes
  strictly earlier. Each group is the list of its timestamp-bearing members in
  ascending order of timestamp, so members without a timestamp are not in it. The
  payload is the concatenation of the groups of the page in that order, every page is
  a run of consecutive groups, and the pages 1 to \<open>total_pages\<close> together give the whole
  ordered list.
\<close>

theorem history_ordering:
  assumes "fetch_all_items tbl session_id_filter = Some (Inr all_items)" and "limit \<noteq> 0"
  shows "\<exists>s h m.
     handle_admin_history_request tbl session_id_filter page limit = Some (200, History s h m) \<and>
     sorted_wrt (\<lambda>a b. latest all_items b \<le> latest all_items a) (ordered_ids_of all_items) \<and>
     (\<forall>i j. i < length (ordered_ids_of all_items) \<and> j < length (ordered_ids_of all_items) \<and>
        latest all_items (ordered_ids_of all_items ! j) < latest all_items (ordered_ids_of all_items ! i)
        \<longrightarrow> i < j) \<and>
     (\<forall>k \<in> set (ordered_ids_of all_items).
        map_of (grouped_interactions all_items) k = Some (sort_key ts (members all_items k)) \<and>
        sorted (map ts (sort_key ts (members all_items k))) \<and>
        mset (sort_key ts (members all_items k)) = mset (members all_items k)) \<and>
     h = concat (map (\<lambda>k. sort_key ts (members all_items k))
           (paginated_interaction_ids (ordered_ids_of all_items) page limit)) \<and>
     sorted_wrt (\<lambda>a b. latest all_items b \<le> latest all_items a)
       (paginated_interaction_ids (ordered_ids_of all_items) page limit) \<and>
     (1 \<le> limit \<longrightarrow>
        concat (map (\<lambda>p. paginated_interaction_ids (ordered_ids_of all_items) (int p) limit)
          [1..<Suc (nat (total_pages m))]) = ordered_ids_of all_items)"
proof -
  let ?ids = "ordered_ids_of all_items"
  have s: "sorted_wrt (\<lambda>a b. latest all_items b \<le> latest all_items a) ?ids"
    unfolding ordered_ids_of_def by (rule sorted_ordered_grouped)
  have idx: "\<forall>i j. i < length ?ids \<and> j < length ?ids \<and>
        latest all_items (?ids ! j) < latest all_items (?ids ! i) \<longrightarrow> i < j"
    using sorted_wrt_strict_index [OF s] by blast
  have grp: "\<forall>k \<in> set ?ids.
        map_of (grouped_interactions all_items) k = Some (sort_key ts (members all_items k)) \<and>
        sorted (map ts (sort_key ts (members all_items k))) \<and>
        mset (sort_key ts (members all_items k)) = mset (members all_items k)"
    by (simp add: ordered_ids_of_def map_of_grouped_ordered)
  have sp: "sorted_wrt (\<lambda>a b. latest all_items b \<le> latest all_items a)
       (paginated_interaction_ids ?ids page limit)"
    unfolding paginated_interaction_ids_def Let_def using s by (rule sorted_wrt_py_slice)
  have pages: "1 \<le> limit \<longrightarrow>
        concat (map (\<lambda>p. paginated_interaction_ids ?ids (int p) limit)
          [1..<Suc (nat ((int (length ?ids) + limit - 1) div limit))]) = ?ids"
    using concat_pages [of limit ?ids] by blast
  show ?thesis
    unfolding handle_history_ok [OF assms, folded ordered_ids_of_def]
    using s idx grp sp pages by (simp del: upt_Suc)
qed

theorem history_ordering_witness:
  "fetch_all_items (paged_table sample_pages) None = Some (Inr sample_items) \<and>
   ordered_ids_of sample_items = [''i1'', ''i3'', ''i2''] \<and>
   map (latest sample_items) [''i1'', ''i3'', ''i2''] = [''09'', ''06'', ''04''] \<and>
   (\<exists>s h m. handle_admin_history_request (paged_table sample_pages) None 2 2 =
        Some (200, History s h m) \<and>
        h = [record_of ''s1'' (Some ''i2'') (Some ''03'') ''QUESTION'',
             record_of ''s1'' (Some ''i2'') (Some ''04'') ''AI_RESPONSE''])"
proof -
  have f: "fetch_all_items (paged_table sample_pages) None = Some (Inr sample_items)"
    by (simp add: fetch_all_items_paged sample_items_def)
  have ids: "ordered_ids_of sample_items = [''i1'', ''i3'', ''i2'']"
    by code_simp
  have l: "map (latest sample_items) [''i1'', ''i3'', ''i2''] = [''09'', ''06'', ''04'']"
    by code_simp
  have p: "paginated_interaction_ids [''i1'', ''i3'', ''i2''] 2 2 = [''i2'']"
    by (simp add: paginated_interaction_ids_def py_slice_def)
  have g: "sort_key ts (members sample_items ''i2'') =
      [record_of ''s1'' (Some ''i2'') (Some ''03'') ''QUESTION'',
       record_of ''s1'' (Some ''i2'') (Some ''04'') ''AI_RESPONSE'']"
    by code_simp
  from history_ordering [OF f, of 2 2] ids l p g f show ?thesis
    by auto
qed

lemma unique_session_count_card:
  "unique_session_count all_items =
     card {x. x \<noteq> [] \<and> (\<exists>r \<in> set all_items. SessionId r = Some x)}"
proof -
  let ?A = "{x. x \<noteq> [] \<and> (\<exists>r \<in> set all_items. SessionId r = Some x)}"
  have "set (map SessionId (filter (\<lambda>item. truthy (SessionId item)) all_items)) = Some ` ?A"
  proof (intro set_eqI iffI)
    fix v
    assume "v \<in> set (map SessionId (filter (\<lambda>item. truthy (SessionId item)) all_items))"
    then obtain r where "r \<in> set all_items" "truthy (SessionId r)" "v = SessionId r"
      by auto
    then show "v \<in> Some ` ?A"
      by (cases "SessionId r") (auto simp: truthy_def)
  next
    fix v
    assume "v \<in> Some ` ?A"
    then obtain x r where "v = Some x" "x \<noteq> []" "r \<in> set all_items" "SessionId r = Some x"
      by auto
    then have "r \<in> set (filter (\<lambda>item. truthy (SessionId item)) all_items)" "v = SessionId r"
      by (simp_all add: truthy_def)
    then show "v \<in> set (map SessionId (filter (\<lambda>item. truthy (SessionId item)) all_items))"
      by (metis image_eqI set_map)
  qed
  then have "unique_session_count all_items = card (Some ` ?A)"
    unfolding unique_session_count_def by (metis length_remdups_card_conv)
  also have "\<dots> = card ?A"
    by (rule card_image) simp
  finally show ?thesis .
qed

lemma counts_ignore_grouping_fields:
  "count_event_type t (map (\<lambda>r. r\<lparr>Timestamp := f r, InteractionId := g r\<rparr>) all_items) =
     count_event_type t all_items"
  "unique_session_count (map (\<lambda>r. r\<lparr>Timestamp := f r, InteractionId := g r\<rparr>) all_items) =
     unique_session_count all_items"
  by (simp_all add: count_event_type_def unique_session_count_def filter_map o_def)

lemma not_in_history:
  assumes "Timestamp r = None \<or> \<not> truthy (InteractionId r)" and "[] \<notin> set ids"
  shows "r \<notin> set (concat (map (\<lambda>k. sort_key ts (members all_items k)) ids))"
  using assms by (auto simp: members_def truthy_def)

text \<open>
  Claim C3. The five counts of the summary are taken over all fetched records: the
  number of records, the number of records of each event type, and the number of
  distinct non-empty session ids. They do not depend on the timestamps or interaction
  ids of the records: a fetch that differs only in those fields gives the same
  counts. A record without a timestamp, or without an interaction id, is counted
  like any other, while it is in no group and on no page of the history.
\<close>

theorem summary_counts_full_set:
  assumes "fetch_all_items tbl session_id_filter = Some (Inr all_items)" and "limit \<noteq> 0"
  shows "\<exists>s h m.
     handle_admin_history_request tbl session_id_filter page limit = Some (200, History s h m) \<and>
     totalIndividualLogEntries s = length all_items \<and>
     totalQuestions s = length (filter (\<lambda>r. EventType r = Some ''QUESTION'') all_items) \<and>
     totalAIResponses s = length (filter (\<lambda>r. EventType r = Some ''AI_RESPONSE'') all_items) \<and>
     totalAdminCorrections s =
       length (filter (\<lambda>r. EventType r = Some ''ADMIN_CORRECTION'') all_items) \<and>
     uniqueSessionCount s = card {x. x \<noteq> [] \<and> (\<exists>r \<in> set all_items. SessionId r = Some x)} \<and>
     (\<forall>r. Timestamp r = None \<or> \<not> truthy (InteractionId r) \<longrightarrow>
        r \<notin> set h \<and> (\<forall>(k, g) \<in> set (grouped_interactions all_items). r \<notin> set g)) \<and>
     (\<forall>tbl' f g s' h' m'.
        fetch_all_items tbl' session_id_filter =
          Some (Inr (map (\<lambda>r. r\<lparr>Timestamp := f r, InteractionId := g r\<rparr>) all_items)) \<and>
        handle_admin_history_request tbl' session_id_filter page limit =
          Some (200, History s' h' m') \<longrightarrow>
        totalIndividualLogEntries s' = totalIndividualLogEntries s \<and>
        totalQuestions s' = totalQuestions s \<and>
        totalAIResponses s' = totalAIResponses s \<and>
        totalAdminCorrections s' = totalAdminCorrections s \<and>
        uniqueSessionCount s' = uniqueSessionCount s)"
proof -
  let ?ids = "ordered_interaction_ids (grouped_interactions all_items)"
  let ?h = "concat (map (\<lambda>k. sort_key ts (members all_items k))
              (paginated_interaction_ids ?ids page limit))"
  have absent: "r \<notin> set ?h \<and> (\<forall>(k, g) \<in> set (grouped_interactions all_items). r \<notin> set g)"
    if "Timestamp r = None \<or> \<not> truthy (InteractionId r)" for r
  proof
    have "[] \<notin> set (paginated_interaction_ids ?ids page limit)"
      using set_py_slice [of ?ids] by (auto simp: paginated_interaction_ids_def Let_def set_ordered_grouped)
    with that show "r \<notin> set ?h"
      by (rule not_in_history)
    show "\<forall>(k, g) \<in> set (grouped_interactions all_items). r \<notin> set g"
      using that by (auto simp: grouped_entry members_def truthy_def)
  qed
  have indep: "totalIndividualLogEntries s' = length all_items \<and>
        totalQuestions s' = count_event_type ''QUESTION'' all_items \<and>
        totalAIResponses s' = count_event_type ''AI_RESPONSE'' all_items \<and>
        totalAdminCorrections s' = count_event_type ''ADMIN_CORRECTION'' all_items \<and>
        uniqueSessionCount s' = unique_session_count all_items"
    if f: "fetch_all_items tbl' session_id_filter =
          Some (Inr (map (\<lambda>r. r\<lparr>Timestamp := f r, InteractionId := g r\<rparr>) all_items))"
      and h: "handle_admin_history_request tbl' session_id_filter page limit =
          Some (200, History s' h' m')"
    for tbl' f g s' h' m'
    using h unfolding handle_history_ok [OF f assms(2)]
    by (auto simp: counts_ignore_grouping_fields)
  show ?thesis
    unfolding handle_history_ok [OF assms]
    using absent indep
    by (simp add: unique_session_count_card count_event_type_def) blast
qed

theorem summary_counts_full_set_witness:
  "fetch_all_items (paged_table sample_pages) None = Some (Inr sample_items) \<and>
   (\<exists>s h m. handle_admin_history_request (paged_table sample_pages) None 1 10 =
        Some (200, History s h m) \<and>
        totalIndividualLogEntries s = 9 \<and> totalQuestions s = 5 \<and>
        totalAIResponses s = 3 \<and> totalAdminCorrections s = 1 \<and>
        record_of ''s4'' (Some ''i4'') None ''QUESTION'' \<in> set sample_items \<and>
        record_of ''s4'' (Some ''i4'') None ''QUESTION'' \<notin> set h \<and>
        record_of ''s3'' None (Some ''07'') ''QUESTION'' \<in> set sample_items \<and>
        record_of ''s3'' None (Some ''07'') ''QUESTION'' \<notin> set h)"
proof -
  have f: "fetch_all_items (paged_table sample_pages) None = Some (Inr sample_items)"
    by (simp add: fetch_all_items_paged sample_items_def)
  have n: "length sample_items = 9"
    "length (filter (\<lambda>r. EventType r = Some ''QUESTION'') sample_items) = 5"
    "length (filter (\<lambda>r. EventType r = Some ''AI_RESPONSE'') sample_items) = 3"
    "length (filter (\<lambda>r. EventType r = Some ''ADMIN_CORRECTION'') sample_items) = 1"
    by (simp_all add: sample_items_def sample_pages_def record_of_def)
  have m: "record_of ''s4'' (Some ''i4'') None ''QUESTION'' \<in> set sample_items"
    "record_of ''s3'' None (Some ''07'') ''QUESTION'' \<in> set sample_items"
    by (simp_all add: sample_items_def sample_pages_def)
  have a: "Timestamp (record_of ''s4'' (Some ''i4'') None ''QUESTION'') = None"
    "\<not> truthy (InteractionId (record_of ''s3'' None (Some ''07'') ''QUESTION''))"
    by (simp_all add: record_of_def truthy_def)
  from summary_counts_full_set [OF f, of 10 1] obtain s h m where
    r: "handle_admin_history_request (paged_table sample_pages) None 1 10 = Some (200, History s h m)"
    and c: "totalIndividualLogEntries s = length sample_items"
      "totalQuestions s = length (filter (\<lambda>r. EventType r = Some ''QUESTION'') sample_items)"
      "totalAIResponses s = length (filter (\<lambda>r. EventType r = Some ''AI_RESPONSE'') sample_items)"
      "totalAdminCorrections s = length (filter (\<lambda>r. EventType r = Some ''ADMIN_CORRECTION'') sample_items)"
    and ab: "\<forall>r. Timestamp r = None \<or> \<not> truthy (InteractionId r) \<longrightarrow> r \<notin> set h \<and> (\<forall>(k, g) \<in> set (grouped_interactions sample_items). r \<notin> set g)"
    by auto
  from ab a have "record_of ''s4'' (Some ''i4'') None ''QUESTION'' \<notin> set h"
    "record_of ''s3'' None (Some ''07'') ''QUESTION'' \<notin> set h"
    by blast+
  with f r c n m show ?thesis
    by simp
qed

lemma set_ordered_ids_of:
  "set (ordered_ids_of all_items) =
     {k. k \<noteq> [] \<and> (\<exists>r \<in> set all_items. InteractionId r = Some k \<and> Timestamp r \<noteq> None)}"
  by (auto simp: ordered_ids_of_def set_ordered_grouped members_def filter_empty_conv)

lemma length_ordered_ids_of:
  "length (ordered_ids_of all_items) =
     card {k. k \<noteq> [] \<and> (\<exists>r \<in> set all_items. InteractionId r = Some k \<and> Timestamp r \<noteq> None)}"
  using distinct_card [of "ordered_ids_of all_items"]
  by (simp add: set_ordered_ids_of) (simp add: ordered_ids_of_def distinct_ordered_grouped)

lemma history_members:
  assumes "r \<in> set (concat (map (\<lambda>k. sort_key ts (members all_items k)) ids))"
  shows "r \<in> set all_items \<and> Timestamp r \<noteq> None \<and> (\<exists>k \<in> set ids. InteractionId r = Some k)"
  using assms by (auto simp: members_def)

text \<open>
  Claim C10. The ordered group list holds, once each, exactly the non-empty
  interaction ids that have at least one record with a timestamp. So an interaction
  whose records all lack a timestamp is not in the list and has no record on any
  page; \<open>totalInteractionGroups\<close> (the same number in the metadata) and \<open>total_pages\<close>
  count only the groups in the list, while the summary counts still run over every
  fetched record.
\<close>

theorem timestampless_group_omitted:
  assumes "fetch_all_items tbl session_id_filter = Some (Inr all_items)" and "limit \<noteq> 0"
  shows "\<exists>s h m.
     handle_admin_history_request tbl session_id_filter page limit = Some (200, History s h m) \<and>
     distinct (ordered_ids_of all_items) \<and>
     set (ordered_ids_of all_items) =
       {k. k \<noteq> [] \<and> (\<exists>r \<in> set all_items. InteractionId r = Some k \<and> Timestamp r \<noteq> None)} \<and>
     totalInteractionGroups s =
       card {k. k \<noteq> [] \<and> (\<exists>r \<in> set all_items. InteractionId r = Some k \<and> Timestamp r \<noteq> None)} \<and>
     total_interaction_groups m = totalInteractionGroups s \<and>
     total_pages m = (int (totalInteractionGroups s) + limit - 1) div limit \<and>
     (\<forall>k. (\<forall>r \<in> set all_items. InteractionId r = Some k \<longrightarrow> Timestamp r = None) \<longrightarrow>
        k \<notin> set (ordered_ids_of all_items) \<and> (\<forall>r \<in> set h. InteractionId r \<noteq> Some k)) \<and>
     totalIndividualLogEntries s = length all_items \<and>
     totalQuestions s = length (filter (\<lambda>r. EventType r = Some ''QUESTION'') all_items) \<and>
     totalAIResponses s = length (filter (\<lambda>r. EventType r = Some ''AI_RESPONSE'') all_items) \<and>
     totalAdminCorrections s =
       length (filter (\<lambda>r. EventType r = Some ''ADMIN_CORRECTION'') all_items)"
proof -
  let ?ids = "ordered_ids_of all_items"
  let ?h = "concat (map (\<lambda>k. sort_key ts (members all_items k))
              (paginated_interaction_ids ?ids page limit))"
  have d: "distinct ?ids"
    by (simp add: ordered_ids_of_def distinct_ordered_grouped)
  have omitted: "k \<notin> set ?ids \<and> (\<forall>r \<in> set ?h. InteractionId r \<noteq> Some k)"
    if "\<forall>r \<in> set all_items. InteractionId r = Some k \<longrightarrow> Timestamp r = None" for k
  proof
    show "k \<notin> set ?ids"
      using that by (auto simp: set_ordered_ids_of)
    show "\<forall>r \<in> set ?h. InteractionId r \<noteq> Some k"
    proof
      fix r
      assume "r \<in> set ?h"
      then have "r \<in> set all_items" "Timestamp r \<noteq> None"
        using history_members by blast+
      with that show "InteractionId r \<noteq> Some k"
        by auto
    qed
  qed
  have om: "\<forall>k. (\<forall>r \<in> set all_items. InteractionId r = Some k \<longrightarrow> Timestamp r = None) \<longrightarrow>
        k \<notin> set ?ids \<and> (\<forall>r \<in> set ?h. InteractionId r \<noteq> Some k)"
    using omitted by blast
  show ?thesis
    unfolding handle_history_ok [OF assms, folded ordered_ids_of_def]
    apply (intro exI conjI)
              apply (rule refl)
             apply (rule d)
            apply (rule set_ordered_ids_of)
           apply (simp add: length_ordered_ids_of)
          apply simp
         apply simp
        apply (rule om)
       apply (simp_all add: count_event_type_def)
    done
qed


theorem timestampless_group_omitted_witness:
  "fetch_all_items (paged_table sample_pages) None = Some (Inr sample_items) \<and>
   members sample_items ''i4'' = [] \<and>
   (\<exists>r \<in> set sample_items. InteractionId r = Some ''i4'') \<and>
   ordered_ids_of sample_items = [''i1'', ''i3'', ''i2''] \<and>
   (\<exists>s h m. handle_admin_history_request (paged_table sample_pages) None 1 2 =
        Some (200, History s h m) \<and>
        totalInteractionGroups s = 3 \<and> total_interaction_groups m = 3 \<and> total_pages m = 2 \<and>
        totalIndividualLogEntries s = 9 \<and>
        (\<forall>r \<in> set h. InteractionId r \<noteq> Some ''i4''))"
proof -
  have f: "fetch_all_items (paged_table sample_pages) None = Some (Inr sample_items)"
    by (simp add: fetch_all_items_paged sample_items_def)
  have a: "\<forall>r \<in> set sample_items. InteractionId r = Some ''i4'' \<longrightarrow> Timestamp r = None"
    by (simp add: sample_items_def sample_pages_def record_of_def)
  have a0: "members sample_items ''i4'' = []"
    by (simp add: members_def sample_items_def sample_pages_def record_of_def)
  have e: "\<exists>r \<in> set sample_items. InteractionId r = Some ''i4''"
    by (simp add: sample_items_def sample_pages_def record_of_def)
  have ids: "ordered_ids_of sample_items = [''i1'', ''i3'', ''i2'']"
    by code_simp
  have n: "length sample_items = 9"
    by (simp add: sample_items_def sample_pages_def)
  have nz: "(2::int) \<noteq> 0"
    by simp
  from timestampless_group_omitted [OF f nz, where page = 1] obtain s h m where
    all: "handle_admin_history_request (paged_table sample_pages) None 1 2 = Some (200, History s h m) \<and>
     distinct (ordered_ids_of sample_items) \<and>
     set (ordered_ids_of sample_items) =
       {k. k \<noteq> [] \<and> (\<exists>r \<in> set sample_items. InteractionId r = Some k \<and> Timestamp r \<noteq> None)} \<and>
     totalInteractionGroups s =
       card {k. k \<noteq> [] \<and> (\<exists>r \<in> set sample_items. InteractionId r = Some k \<and> Timestamp r \<noteq> None)} \<and>
     total_interaction_groups m = totalInteractionGroups s \<and>
     total_pages m = (int (totalInteractionGroups s) + 2 - 1) div 2 \<and>
     (\<forall>k. (\<forall>r \<in> set sample_items. InteractionId r = Some k \<longrightarrow> Timestamp r = None) \<longrightarrow>
        k \<notin> set (ordered_ids_of sample_items) \<and> (\<forall>r \<in> set h. InteractionId r \<noteq> Some k)) \<and>
     totalIndividualLogEntries s = length sample_items \<and>
     totalQuestions s = length (filter (\<lambda>r. EventType r = Some ''QUESTION'') sample_items) \<and>
     totalAIResponses s = length (filter (\<lambda>r. EventType r = Some ''AI_RESPONSE'') sample_items) \<and>
     totalAdminCorrections s =
       length (filter (\<lambda>r. EventType r = Some ''ADMIN_CORRECTION'') sample_items)"
    by blast
  note r = all [THEN conjunct1]
  note d = all [THEN conjunct2, THEN conjunct1]
  note st = all [THEN conjunct2, THEN conjunct2, THEN conjunct1]
  note g1 = all [THEN conjunct2, THEN conjunct2, THEN conjunct2, THEN conjunct1]
  note g2 = all [THEN conjunct2, THEN conjunct2, THEN conjunct2, THEN conjunct2, THEN conjunct1]
  note g3 = all [THEN conjunct2, THEN conjunct2, THEN conjunct2, THEN conjunct2, THEN conjunct2,
      THEN conjunct1]
  note om = all [THEN conjunct2, THEN conjunct2, THEN conjunct2, THEN conjunct2, THEN conjunct2,
      THEN conjunct2, THEN conjunct1]
  note c = all [THEN conjunct2, THEN conjunct2, THEN conjunct2, THEN conjunct2, THEN conjunct2,
      THEN conjunct2, THEN conjunct2, THEN conjunct1]
  have "totalInteractionGroups s = length (ordered_ids_of sample_items)"
    using g1 distinct_card [OF d] unfolding st [symmetric] by simp
  then have t3: "totalInteractionGroups s = 3"
    by (simp add: ids)
  have h4: "\<forall>r \<in> set h. InteractionId r \<noteq> Some ''i4''"
    using om [THEN spec, of "''i4''", THEN mp, OF a] by (rule conjunct2)
  have p: "total_pages m = 2"
    using g3 t3 by simp
  show ?thesis
    using f a0 e ids r t3 g2 p c n h4
    by (intro conjI exI [of _ s] exI [of _ h] exI [of _ m]) simp_all
qed

text \<open>
  Claim C4. Round trip on the record store: after one \<^verbatim>\<open>QUESTION\<close> record and then one
  \<^verbatim>\<open>AI_RESPONSE\<close> record with the same non-empty interaction id have been written to
  an empty store, the question with the earlier timestamp, the history query without
  a session filter, for page 1 with page size 10, returns one group that holds both
  records, the question before the answer. This holds for every page capacity of the
  store of at least one record.
\<close>

theorem question_answer_round_trip:
  assumes "interaction_id \<noteq> []" and "t1 < t2" and "0 < capacity"
    and "log_user_question store_put t1 [] session_id user_question interaction_id = Inr st1"
    and "log_ai_response store_put t2 st1 session_id ai_response user_question interaction_id = Inr st2"
  shows "\<exists>q a s m.
     st2 = [q, a] \<and>
     EventType q = Some ''QUESTION'' \<and> Content q = Some user_question \<and>
     EventType a = Some ''AI_RESPONSE'' \<and> Content a = Some ai_response \<and>
     InteractionId q = Some interaction_id \<and> InteractionId a = Some interaction_id \<and>
     fetch_all_items (store_query capacity st2) None = Some (Inr [a, q]) \<and>
     handle_admin_history_request (store_query capacity st2) None 1 10 =
       Some (200, History s [q, a] m) \<and>
     grouped_interactions [a, q] = [(interaction_id, [q, a])] \<and>
     ordered_ids_of [a, q] = [interaction_id] \<and>
     totalInteractionGroups s = 1 \<and> totalIndividualLogEntries s = 2 \<and>
     totalQuestions s = 1 \<and> totalAIResponses s = 1 \<and>
     current_page m = 1 \<and> total_pages m = 1"
proof -
  let ?q = "\<lparr> SessionId = Some session_id, InteractionId = Some interaction_id,
      Timestamp = Some t1, EventType = Some ''QUESTION'',
      Timestamp_EventType = Some (t1 @ ''#QUESTION''), Content = Some user_question,
      UserQuestion = None, OriginalAIResponse = None, AdminId = None,
      CorrectionTimestamp = None \<rparr>"
  let ?a = "\<lparr> SessionId = Some session_id, InteractionId = Some interaction_id,
      Timestamp = Some t2, EventType = Some ''AI_RESPONSE'',
      Timestamp_EventType = Some (t2 @ ''#AI_RESPONSE''), Content = Some ai_response,
      UserQuestion = Some user_question, OriginalAIResponse = None, AdminId = None,
      CorrectionTimestamp = None \<rparr>"
  from assms(4) have st1: "st1 = [?q]"
    by (simp add: log_user_question_def store_put_def)
  with assms(5) have st2: "st2 = [?q, ?a]"
    by (auto simp: log_ai_response_def store_put_def)
  have idx: "store_index [?q, ?a] ''AI_RESPONSE'' False = [?a]"
    "store_index [?q, ?a] ''QUESTION'' False = [?q]"
    "store_index [?q, ?a] ''ADMIN_CORRECTION'' False = []"
    by (simp_all add: store_index_def)
  have f: "fetch_all_items (store_query capacity st2) None = Some (Inr [?a, ?q])"
    using assms(3) by (simp add: fetch_all_items_def fetch_store st2 idx truthy_def session_filter_def)
  have nle: "\<not> t2 \<le> t1"
    using assms(2) by simp
  have g: "grouped_interactions [?a, ?q] = [(interaction_id, [?q, ?a])]"
    using assms(1) nle
    by (simp add: grouped_interactions_def sort_groups_def sort_group_def truthy_def ts_def)
  have ids0: "ordered_interaction_ids [(interaction_id, [?q, ?a])] = [interaction_id]"
    by (simp add: ordered_interaction_ids_def interaction_id_sort_keys_def sort_reverse_def)
  have ids: "ordered_ids_of [?a, ?q] = [interaction_id]"
    by (simp add: ordered_ids_of_def g ids0)
  have p: "paginated_interaction_ids [interaction_id] 1 10 = [interaction_id]"
    by (simp add: paginated_interaction_ids_def py_slice_def)
  have h: "history_page [?a, ?q] 1 10 =
      Inr (History
        \<lparr> totalInteractionGroups = 1, totalIndividualLogEntries = 2, totalQuestions = 1,
          totalAIResponses = 1, totalAdminCorrections = 0,
          uniqueSessionCount = unique_session_count [?a, ?q] \<rparr>
        [?q, ?a]
        \<lparr> current_page = 1, total_pages = 1, total_interaction_groups = 1, limit_per_page = 10 \<rparr>)"
    by (simp add: history_page_def g ids0 p count_event_type_def Let_def)
  have r: "handle_admin_history_request (store_query capacity st2) None 1 10 =
      Some (200, History
        \<lparr> totalInteractionGroups = 1, totalIndividualLogEntries = 2, totalQuestions = 1,
          totalAIResponses = 1, totalAdminCorrections = 0,
          uniqueSessionCount = unique_session_count [?a, ?q] \<rparr>
        [?q, ?a]
        \<lparr> current_page = 1, total_pages = 1, total_interaction_groups = 1, limit_per_page = 10 \<rparr>)"
    by (simp add: handle_admin_history_request_def f h)
  show ?thesis
    apply (rule exI [of _ ?q])
    apply (rule exI [of _ ?a])
    apply (intro exI conjI)
                    apply (rule st2)
                   apply simp
                  apply simp
                 apply simp
                apply simp
               apply simp
              apply simp
             apply (rule f)
            apply (rule r)
           apply (rule g)
          apply (rule ids)
         apply simp_all
    done
qed

theorem question_answer_round_trip_witness:
  "''i1'' \<noteq> [] \<and> ''2024-05-01T10:00:00.000Z'' < ''2024-05-01T10:00:02.500Z'' \<and> (0::nat) < 1 \<and>
   (\<exists>q a s m.
      log_user_question store_put ''2024-05-01T10:00:00.000Z'' [] ''s1'' ''does mileage have limits''
        ''i1'' = Inr [q] \<and>
      log_ai_response store_put ''2024-05-01T10:00:02.500Z'' [q] ''s1'' ''mileage is unlimited''
        ''does mileage have limits'' ''i1'' = Inr [q, a] \<and>
      handle_admin_history_request (store_query 1 [q, a]) None 1 10 =
        Some (200, History s [q, a] m) \<and>
      totalInteractionGroups s = 1)"
proof -
  have t: "''2024-05-01T10:00:00.000Z'' < ''2024-05-01T10:00:02.500Z''"
    by code_simp
  obtain st1 where l1: "log_user_question store_put ''2024-05-01T10:00:00.000Z'' [] ''s1''
      ''does mileage have limits'' ''i1'' = Inr st1"
    by (simp add: log_user_question_def store_put_def)
  obtain st2 where l2: "log_ai_response store_put ''2024-05-01T10:00:02.500Z'' st1 ''s1''
      ''mileage is unlimited'' ''does mileage have limits'' ''i1'' = Inr st2"
    by (simp add: log_ai_response_def store_put_def)
  have one: "(0::nat) < 1" and ne: "''i1'' \<noteq> []"
    by simp_all
  from question_answer_round_trip [OF ne t one l1 l2] obtain q a s m where
    c: "st2 = [q, a]"
      "handle_admin_history_request (store_query 1 st2) None 1 10 = Some (200, History s [q, a] m)"
      "totalInteractionGroups s = 1"
    by blast
  from l2 c(1) have "st1 = [q]"
    by (auto simp: log_ai_response_def store_put_def)
  with l1 l2 c t show ?thesis
    by auto
qed

section \<open>The correction matcher: lemmas\<close>












lemma store_query_corrections:
  "20 \<le> capacity \<Longrightarrow>
   store_query capacity st corrections_kwargs =
     Inr \<lparr> Items = Some (take 20 (store_index st ''ADMIN_CORRECTION'' False)),
           LastEvaluatedKey =
             (if 20 < length (store_index st ''ADMIN_CORRECTION'' False)
              then Some (token_of 20) else None) \<rparr>"
  by (simp add: store_query_def corrections_kwargs_def Let_def position_of_def session_filter_def
      min_def)



text \<open>
  Claim C7. When the backend read of the matcher fails, the failure reaches the
  caller and does not stop it: the tool returns, without raising, a message that
  carries the text of the exception ("An error occurred while retrieving admin
  corrections: ..." for a \<^verbatim>\<open>ClientError\<close>), and this message differs from every result
  that the tool returns after a successful read, so the failure is not passed off as
  a normal result.
\<close>

theorem backend_failure_reported:
  assumes "tbl corrections_kwargs = Inl e"
  shows "get_relevant_admin_corrections tbl user_query =
       (case e of
          ClientError m \<Rightarrow> ''An error occurred while retrieving admin corrections: '' @ m
        | _ \<Rightarrow> ''An unexpected error occurred: '' @ str_of e) \<and>
     (\<forall>tbl' user_query' response.
        tbl' corrections_kwargs = Inr response \<longrightarrow>
        get_relevant_admin_corrections tbl' user_query' \<noteq>
          get_relevant_admin_corrections tbl user_query)"
proof
  show r: "get_relevant_admin_corrections tbl user_query =
       (case e of
          ClientError m \<Rightarrow> ''An error occurred while retrieving admin corrections: '' @ m
        | _ \<Rightarrow> ''An unexpected error occurred: '' @ str_of e)"
    using assms by (simp add: get_relevant_admin_corrections_def split: py_error.splits)
  have a: "hd (get_relevant_admin_corrections tbl user_query) = CHR ''A''"
    unfolding r by (simp split: py_error.splits)
  have "hd (get_relevant_admin_corrections tbl' user_query') \<noteq> CHR ''A''"
    if "tbl' corrections_kwargs = Inr response" for tbl' user_query' response
    using that by (simp add: get_relevant_admin_corrections_def Let_def)
  with a show "\<forall>tbl' user_query' response.
        tbl' corrections_kwargs = Inr response \<longrightarrow>
        get_relevant_admin_corrections tbl' user_query' \<noteq>
          get_relevant_admin_corrections tbl user_query"
    by metis
qed

theorem backend_failure_reported_witness:
  "failing_table corrections_kwargs = Inl (ClientError ''ProvisionedThroughputExceededException'') \<and>
   get_relevant_admin_corrections failing_table ''does mileage have limits'' =
     ''An error occurred while retrieving admin corrections: ProvisionedThroughputExceededException'' \<and>
   get_relevant_admin_corrections (store_query 20 [mileage_correction]) ''insurance coverage'' \<noteq>
     get_relevant_admin_corrections failing_table ''does mileage have limits''"
proof -
  have f: "failing_table corrections_kwargs = Inl (ClientError ''ProvisionedThroughputExceededException'')"
    by (simp add: failing_table_def)
  have s: "store_query 20 [mileage_correction] corrections_kwargs =
      Inr \<lparr> Items = Some (take 20 (store_index [mileage_correction] ''ADMIN_CORRECTION'' False)),
            LastEvaluatedKey =
              (if 20 < length (store_index [mileage_correction] ''ADMIN_CORRECTION'' False)
               then Some (token_of 20) else None) \<rparr>"
    by (simp add: store_query_corrections)
  note t = backend_failure_reported [where tbl = failing_table
      and user_query = "''does mileage have limits''", OF f]
  from t have e: "get_relevant_admin_corrections failing_table ''does mileage have limits'' =
     ''An error occurred while retrieving admin corrections: ProvisionedThroughputExceededException''"
    by simp
  from t [THEN conjunct2, THEN spec, of "store_query 20 [mileage_correction]",
      THEN spec, of "''insurance coverage''", THEN spec, THEN mp, OF s]
  have d: "get_relevant_admin_corrections (store_query 20 [mileage_correction]) ''insurance coverage'' \<noteq>
     get_relevant_admin_corrections failing_table ''does mileage have limits''" .
  from f e d show ?thesis
    by (intro conjI)
qed





end
